theory Spec2Isabelle
  imports Complex_Main "HOL-Library.AList"
begin

section \<open>The program\<close>

text \<open>
  The class \<^verbatim>\<open>Minecraft\<close> resolves the asset documents of archives into model
  descriptors. The sources hold two revisions of it. The embedding follows the later
  one, the file with \<^verbatim>\<open>getBlockStates\<close>, \<^verbatim>\<open>getModelFromBlockState\<close> and the
  fallback parent in \<^verbatim>\<open>getModel\<close>, which is the one that the specification
  describes. The earlier revision, \<^verbatim>\<open>src/minecraft.ts\<close>, has the same \<^verbatim>\<open>id\<close>,
  \<^verbatim>\<open>registerModId\<close>, \<^verbatim>\<open>getFile\<close>, \<^verbatim>\<open>getParsedJson\<close>, \<^verbatim>\<open>parseJson\<close>,
  \<^verbatim>\<open>clone\<close>, \<^verbatim>\<open>getModelFile\<close> and \<^verbatim>\<open>getTextureFile\<close>; its \<^verbatim>\<open>getModel\<close>
  has no fallback parent, and its \<^verbatim>\<open>getBlockList\<close> waits for the models of all
  block names with \<^verbatim>\<open>Promise.all\<close>.
\<close>

section \<open>Values of the JavaScript program\<close>

text \<open>
  A parsed document is a JSON tree. Numbers are the exact values of the doubles that
  \<^verbatim>\<open>JSON.parse\<close> produces (every finite double is a rational); the program
  never computes with them, it only tests them for truthiness. A string is its sequence
  of code units. A plain object is the list of its own properties in the order in which
  \<^verbatim>\<open>for ... in\<close> and \<^verbatim>\<open>Object.keys\<close> enumerate them: the keys that are
  array indices in ascending order, then the other keys in the order of their first
  insertion; a later write to an existing key keeps the key's place. The registry of
  archives, which \<^verbatim>\<open>getFile\<close> walks in that order, is written to with
  \<open>set_property\<close>, which keeps it. A document is a list in the order in which the
  parser has produced it; the merge of documents adds a new key at the end
  (\<open>AList.update\<close>) whatever the key is, and the statements about merged documents
  speak of the value under a key only, never of the order of the keys.
\<close>

datatype json =
    JNull
  | JBool bool
  | JNum rat
  | JStr string
  | JArr "json list"
  | JObj "(string \<times> json) list"

text \<open>What \<^verbatim>\<open>if (v)\<close> and \<^verbatim>\<open>!v\<close> test.\<close>

fun truthy :: "json \<Rightarrow> bool" where
  "truthy JNull = False"
| "truthy (JBool b) = b"
| "truthy (JNum n) = (n \<noteq> 0)"
| "truthy (JStr s) = (s \<noteq> [])"
| "truthy (JArr xs) = True"
| "truthy (JObj kvs) = True"

text \<open>A value that may be \<^verbatim>\<open>undefined\<close> is a \<open>json option\<close>.\<close>

fun truthy_opt :: "json option \<Rightarrow> bool" where
  "truthy_opt None = False"
| "truthy_opt (Some v) = truthy v"

text \<open>
  Every \<^verbatim>\<open>throw\<close> and every rejected promise is a value: \<open>Inl\<close> of one of these.
  \<open>JarError\<close> is whatever a \<^verbatim>\<open>Jar\<close> rejects with.
\<close>

datatype error =
    TypeError
  | SyntaxError
  | Error string
  | JarError string

section \<open>Archives and the resolver instance\<close>

type_synonym buffer = string

record ZipEntry =
  entry_name :: string

text \<open>
  \<^verbatim>\<open>./utils/jar\<close> is not part of the sources; a \<^verbatim>\<open>Jar\<close> is what the program
  uses of it: \<^verbatim>\<open>read(path)\<close> rejects, or resolves to a \<^verbatim>\<open>Buffer\<close> or to
  nothing, and \<^verbatim>\<open>entries(path)\<close> rejects or resolves to a list of entries.
\<close>

record Jar =
  read :: "string \<Rightarrow> error + buffer option"
  entries :: "string \<Rightarrow> error + ZipEntry list"

text \<open>
  The fields of the class that the resolution uses. \<^verbatim>\<open>_cache\<close> holds values of any
  kind; the type of what it holds is a parameter: trees where only the content of a
  document matters, references into a store where the identity of objects does.
\<close>

record 'v Minecraft =
  jar :: Jar
  defaultNamespace :: string
  cache :: "string \<rightharpoonup> 'v"
  modid_jars :: "(string \<times> Jar) list"

text \<open>
  The constructor and \<^verbatim>\<open>Minecraft.open\<close>: \<^verbatim>\<open>defaultNamespace = 'minecraft'\<close>
  when no namespace is given; \<open>Jar_open\<close> stands for \<^verbatim>\<open>Jar.open\<close>.
\<close>

definition Minecraft_open :: "(string \<Rightarrow> Jar) \<Rightarrow> string + Jar \<Rightarrow> string option \<Rightarrow> 'v Minecraft" where
  "Minecraft_open Jar_open file ns =
     \<lparr> jar = (case file of Inr j \<Rightarrow> j | Inl p \<Rightarrow> Jar_open p),
       defaultNamespace = (case ns of None \<Rightarrow> ''minecraft'' | Some n \<Rightarrow> n),
       cache = Map.empty,
       modid_jars = [] \<rparr>"

subsection \<open>Identifiers\<close>

record Identifier =
  namespace :: string
  local_id :: string

text \<open>\<^verbatim>\<open>s.split(c)\<close> for a separator of one character.\<close>

fun split :: "char \<Rightarrow> string \<Rightarrow> string list" where
  "split c [] = [[]]"
| "split c (x # xs) =
     (if x = c then [] # split c xs
      else (case split c xs of
              p # ps \<Rightarrow> (x # p) # ps
            | [] \<Rightarrow> [[x]]))"

text \<open>
  \<^verbatim>\<open>id(name)\<close>. With a colon in the name the split has at least two parts, so the
  last case of the destructuring is never taken (\<open>split_colon_two\<close> below).
\<close>

definition id_of :: "'v Minecraft \<Rightarrow> string \<Rightarrow> Identifier" where
  "id_of this name =
     (if CHR '':'' \<in> set name then
        (case split CHR '':'' name of
           ns # i # _ \<Rightarrow> \<lparr> namespace = ns, local_id = i \<rparr>
         | _ \<Rightarrow> \<lparr> namespace = name, local_id = [] \<rparr>)
      else \<lparr> namespace = ''minecraft'', local_id = name \<rparr>)"

subsection \<open>The registry of auxiliary archives\<close>








subsection \<open>Reading a file from any archive\<close>

text \<open>
  The loop \<^verbatim>\<open>for (let key in this._modid_jars)\<close> of \<^verbatim>\<open>getFile\<close>: a rejected read
  continues with the next archive, a result that is not truthy does too. A
  \<^verbatim>\<open>Buffer\<close> is an object, so every buffer is truthy.
\<close>

fun getFile_loop :: "(string \<times> Jar) list \<Rightarrow> string \<Rightarrow> buffer option" where
  "getFile_loop [] path = None"
| "getFile_loop ((key, j) # rest) path =
     (case read j path of
        Inl err \<Rightarrow> getFile_loop rest path
      | Inr None \<Rightarrow> getFile_loop rest path
      | Inr (Some result) \<Rightarrow> Some result)"

definition getFile :: "'v Minecraft \<Rightarrow> string \<Rightarrow> error + buffer option" where
  "getFile this path =
     (let result = (case read (jar this) path of Inl err \<Rightarrow> None | Inr r \<Rightarrow> r)
      in case result of
           Some b \<Rightarrow> Inr (Some b)
         | None \<Rightarrow> Inr (getFile_loop (modid_jars this) path))"

text \<open>
  The contract of the specification, in its words: the sources in order, the first one
  whose read succeeds with a result wins, absent when there is none.
\<close>

fun first_successful :: "Jar list \<Rightarrow> string \<Rightarrow> buffer option" where
  "first_successful [] path = None"
| "first_successful (j # js) path =
     (case read j path of
        Inr (Some content) \<Rightarrow> Some content
      | _ \<Rightarrow> first_successful js path)"

section \<open>Parsed documents\<close>

subsection \<open>Property access and object spread\<close>

text \<open>
  \<^verbatim>\<open>v.k\<close> on a value that is neither \<^verbatim>\<open>undefined\<close> nor \<^verbatim>\<open>null\<close>, for the
  keys the program reads (\<^verbatim>\<open>parent\<close>, \<^verbatim>\<open>display\<close>, \<^verbatim>\<open>gui\<close>, \<^verbatim>\<open>parents\<close>,
  \<^verbatim>\<open>variants\<close>, \<^verbatim>\<open>model\<close>, the empty key): only an object can carry them.
\<close>

fun get_prop :: "json \<Rightarrow> string \<Rightarrow> json option" where
  "get_prop (JObj kvs) k = map_of kvs k"
| "get_prop _ k = None"

text \<open>Array indices as property keys.\<close>

fun dec_str :: "nat \<Rightarrow> string" where
  "dec_str n =
     (if n < 10 then [''0123456789'' ! n]
      else dec_str (n div 10) @ [''0123456789'' ! (n mod 10)])"

declare dec_str.simps [simp del]

text \<open>
  The own enumerable properties of a value, as \<^verbatim>\<open>{...v}\<close> copies them and
  \<^verbatim>\<open>for ... in\<close> enumerates them: the elements of an array and the code units of a
  string under their indices, nothing for a number or a boolean.
\<close>

fun own_props :: "json \<Rightarrow> (string \<times> json) list" where
  "own_props (JObj kvs) = kvs"
| "own_props (JArr xs) = zip (map dec_str [0..<length xs]) xs"
| "own_props (JStr s) = zip (map dec_str [0..<length s]) (map (\<lambda>c. JStr [c]) s)"
| "own_props _ = []"

subsection \<open>Deep assignment\<close>

text \<open>
  Modelled from the spec: \<^verbatim>\<open>deepAssign\<close> is the package \<^verbatim>\<open>assign-deep\<close>, which is not
  part of the sources. The specification describes it as a deep merge in which a scalar
  or array value of the more specific source replaces the value at its key wholesale and
  nested mappings are merged key by key. \<open>assign_into target source\<close> writes the
  properties of one source object into the target, in the order of the source.
\<close>

fun assign_into :: "(string \<times> json) list \<Rightarrow> (string \<times> json) list \<Rightarrow> (string \<times> json) list" where
  "assign_into target [] = target"
| "assign_into target ((k, v) # source) =
     assign_into
       (AList.update k
          (case (map_of target k, v) of
             (Some (JObj tf), JObj sf) \<Rightarrow> JObj (assign_into tf sf)
           | _ \<Rightarrow> v)
          target)
       source"

text \<open>
  \<^verbatim>\<open>deepAssign(target, ...args)\<close> for a target that is an object, which it is at every
  call of the program: the sources from left to right, one that is not an object is
  passed over.
\<close>

fun deepAssign :: "(string \<times> json) list \<Rightarrow> json list \<Rightarrow> (string \<times> json) list" where
  "deepAssign target [] = target"
| "deepAssign target (JObj source # args) = deepAssign (assign_into target source) args"
| "deepAssign target (_ # args) = deepAssign target args"

subsection \<open>Parsing and cloning\<close>

text \<open>
  \<^verbatim>\<open>JSON.parse\<close> is a parameter \<open>P\<close> of the model: the tree a text parses to, or the
  \<^verbatim>\<open>SyntaxError\<close> thrown. \<^verbatim>\<open>parseJson(data)\<close> accepts a buffer, a string, an
  object (which it stringifies and parses again) or anything else (\<^verbatim>\<open>null\<close>).
  \<^verbatim>\<open>JSON.parse(JSON.stringify(v))\<close> builds the same tree again from new objects; on the
  level of trees that is \<open>v\<close> itself. The identity of the objects is the subject of
  the store model further down, where \<open>clone_s\<close> reads the tree and builds it anew
  (\<open>getParsedJson_s_refines\<close> relates the two models).
\<close>

type_synonym parser = "string \<Rightarrow> error + json"

datatype 'o parse_input = ABuffer buffer | AString string | AnObject 'o | Other

definition clone :: "json \<Rightarrow> json" where
  "clone input = input"

fun parseJson :: "parser \<Rightarrow> json parse_input \<Rightarrow> error + json" where
  "parseJson P (ABuffer data) = P data"
| "parseJson P (AnObject data) = Inr (clone data)"
| "parseJson P (AString data) = P data"
| "parseJson P Other = Inr JNull"

subsection \<open>The cache of parsed documents\<close>

text \<open>
  \<^verbatim>\<open>getParsedJson(path)\<close>. Both tests of \<^verbatim>\<open>this._cache[path]\<close> are tests of
  truthiness. The result is the outcome of the promise and the instance afterwards.
\<close>

definition getParsedJson :: "parser \<Rightarrow> json Minecraft \<Rightarrow> string \<Rightarrow> (error + json option) \<times> json Minecraft" where
  "getParsedJson P this path =
     (let filled =
        (if \<not> truthy_opt (cache this path) then
           (case getFile this path of
              Inl e \<Rightarrow> Inl e
            | Inr None \<Rightarrow> Inr this
            | Inr (Some data) \<Rightarrow>
                (case parseJson P (ABuffer data) of
                   Inl e \<Rightarrow> Inl e
                 | Inr doc \<Rightarrow> Inr (this\<lparr> cache := (cache this)(path \<mapsto> doc) \<rparr>)))
         else Inr this)
      in case filled of
           Inl e \<Rightarrow> (Inl e, this)
         | Inr this1 \<Rightarrow>
             (case cache this1 path of
                Some doc \<Rightarrow> (if truthy doc then (Inr (Some (clone doc)), this1) else (Inr None, this1))
              | None \<Rightarrow> (Inr None, this1)))"

section \<open>Model and texture files\<close>

definition model_path :: "Identifier \<Rightarrow> string" where
  "model_path i =
     (let id' = (if CHR ''/'' \<notin> set (local_id i) then ''block/'' @ local_id i else local_id i)
      in ''assets/'' @ namespace i @ ''/models/'' @ id' @ ''.json'')"

text \<open>
  \<^verbatim>\<open>getModelFile(name = 'block/block')\<close>. The \<^verbatim>\<open>try\<close> encloses a call that only
  creates a promise: an \<^verbatim>\<open>async\<close> function never throws to its caller, and the promise
  is returned without \<^verbatim>\<open>await\<close>, so what it settles to, a rejection too, is the
  outcome of \<^verbatim>\<open>getModelFile\<close>. No path of the function leads to its
  \<^verbatim>\<open>throw new Error(`Unable to find model file: ${path}`)\<close>.
\<close>

definition getModelFile :: "parser \<Rightarrow> json Minecraft \<Rightarrow> string option \<Rightarrow> (error + json option) \<times> json Minecraft" where
  "getModelFile P this name_arg =
     (let name = (case name_arg of None \<Rightarrow> ''block/block'' | Some n \<Rightarrow> n);
          path = model_path (id_of this name)
      in getParsedJson P this path)"

definition texture_path :: "Identifier \<Rightarrow> string" where
  "texture_path i = ''assets/'' @ namespace i @ ''/textures/'' @ local_id i @ ''.png''"

text \<open>
  \<^verbatim>\<open>getTextureFile(name = '')\<close>: here the promise of \<^verbatim>\<open>getFile\<close> is awaited inside
  the \<^verbatim>\<open>try\<close>, so a rejection would be caught and replaced.
\<close>

definition getTextureFile :: "'v Minecraft \<Rightarrow> string option \<Rightarrow> error + buffer option" where
  "getTextureFile this name_arg =
     (let name = (case name_arg of None \<Rightarrow> [] | Some n \<Rightarrow> n);
          path = texture_path (id_of this name)
      in case getFile this path of
           Inr found \<Rightarrow> Inr found
         | Inl e \<Rightarrow> Inl (Error (''Unable to find texture file: '' @ path)))"

section \<open>Resolving a model\<close>

text \<open>
  \<^verbatim>\<open>let { parent, ...model } = file\<close>: destructuring \<^verbatim>\<open>undefined\<close> or \<^verbatim>\<open>null\<close> throws
  a \<^verbatim>\<open>TypeError\<close>; otherwise \<open>model\<close> is a new object with the own properties
  but \<^verbatim>\<open>parent\<close>.
\<close>

definition destructure :: "json option \<Rightarrow> error + json option \<times> (string \<times> json) list" where
  "destructure file =
     (case file of
        None \<Rightarrow> Inl TypeError
      | Some JNull \<Rightarrow> Inl TypeError
      | Some doc \<Rightarrow> Inr (get_prop doc ''parent'', AList.delete ''parent'' (own_props doc)))"

text \<open>\<^verbatim>\<open>!model.display || !model.display.gui\<close> for an object \<open>model\<close>.\<close>

definition no_gui :: "(string \<times> json) list \<Rightarrow> bool" where
  "no_gui model =
     (case map_of model ''display'' of
        None \<Rightarrow> True
      | Some display \<Rightarrow> \<not> truthy display \<or> \<not> truthy_opt (get_prop display ''gui''))"

text \<open>
  A value of a document that is passed where the declared type is \<^verbatim>\<open>string\<close>
  (\<^verbatim>\<open>parent\<close> and \<^verbatim>\<open>model\<close> are declared so in \<^verbatim>\<open>BlockModel\<close> and
  \<^verbatim>\<open>BlockStateVariant\<close>): \<^verbatim>\<open>id\<close> calls \<^verbatim>\<open>name.includes(':')\<close> on it, which throws
  a \<^verbatim>\<open>TypeError\<close> for \<^verbatim>\<open>null\<close>, a number, a boolean and an object. An array has a
  method of that name and would be turned into text inside the path; the model does not
  follow a name that is an array and reports the \<^verbatim>\<open>TypeError\<close> for it as well.
\<close>

fun as_name :: "json \<Rightarrow> error + string" where
  "as_name (JStr s) = Inr s"
| "as_name _ = Inl TypeError"

text \<open>
  \<^verbatim>\<open>if (!model.parents) model.parents = []\<close> and \<^verbatim>\<open>model.parents.push(parent)\<close>:
  only an array has \<^verbatim>\<open>push\<close>.
\<close>

definition push_parent :: "(string \<times> json) list \<Rightarrow> json \<Rightarrow> error + (string \<times> json) list" where
  "push_parent model parent =
     (let model1 = (if \<not> truthy_opt (map_of model ''parents'')
                    then AList.update ''parents'' (JArr []) model else model)
      in case map_of model1 ''parents'' of
           Some (JArr ps) \<Rightarrow> Inr (AList.update ''parents'' (JArr (ps @ [parent])) model1)
         | _ \<Rightarrow> Inl TypeError)"

text \<open>\<^verbatim>\<open>deepAssign(model, { blockName })\<close> for a name that is a string.\<close>

definition stamp :: "(string \<times> json) list \<Rightarrow> string \<Rightarrow> json" where
  "stamp model blockName = JObj (deepAssign model [JObj [(''blockName'', JStr blockName)]])"

text \<open>
  \<^verbatim>\<open>getModel(blockName)\<close>, the version with the fallback to
  \<^verbatim>\<open>minecraft:block/block\<close>. Nothing bounds the recursion along \<^verbatim>\<open>parent\<close>, so the
  model counts the calls: \<open>None\<close> says that \<open>fuel\<close> nested calls did not reach
  the end of the chain. Every other outcome is the settled promise and the instance.
\<close>

fun getModel :: "nat \<Rightarrow> parser \<Rightarrow> json Minecraft \<Rightarrow> string \<Rightarrow> ((error + json) \<times> json Minecraft) option" where
  "getModel 0 P this blockName = None"
| "getModel (Suc fuel) P this blockName =
     (case getModelFile P this (Some blockName) of
        (Inl e, this1) \<Rightarrow> Some (Inl e, this1)
      | (Inr file, this1) \<Rightarrow>
          (case destructure file of
             Inl e \<Rightarrow> Some (Inl e, this1)
           | Inr (parent0, model) \<Rightarrow>
               (let parent = (if \<not> truthy_opt parent0 \<and> no_gui model
                              then Some (JStr ''minecraft:block/block'') else parent0)
                in case parent of
                     None \<Rightarrow> Some (Inr (stamp model blockName), this1)
                   | Some pv \<Rightarrow>
                       if \<not> truthy pv then Some (Inr (stamp model blockName), this1)
                       else
                         (case as_name pv of
                            Inl e \<Rightarrow> Some (Inl e, this1)
                          | Inr p \<Rightarrow>
                              (case getModel fuel P this1 p of
                                 None \<Rightarrow> None
                               | Some (Inl e, this2) \<Rightarrow> Some (Inl e, this2)
                               | Some (Inr inherited, this2) \<Rightarrow>
                                   (case push_parent (deepAssign [] [inherited, JObj model]) (JStr p) of
                                      Inl e \<Rightarrow> Some (Inl e, this2)
                                    | Inr model' \<Rightarrow> Some (Inr (stamp model' blockName), this2)))))))"

section \<open>Block states and the list of all blocks\<close>

subsection \<open>Listing a directory\<close>

fun getFileEntries_loop :: "(string \<times> Jar) list \<Rightarrow> string \<Rightarrow> ZipEntry list" where
  "getFileEntries_loop [] path = []"
| "getFileEntries_loop ((key, j) # rest) path =
     (case entries j path of
        Inl err \<Rightarrow> getFileEntries_loop rest path
      | Inr result \<Rightarrow> if result \<noteq> [] then result else getFileEntries_loop rest path)"

definition getFileEntries :: "'v Minecraft \<Rightarrow> string \<Rightarrow> error + ZipEntry list" where
  "getFileEntries this path =
     (let result = (case entries (jar this) path of Inl err \<Rightarrow> [] | Inr r \<Rightarrow> r)
      in if result \<noteq> [] then Inr result
         else Inr (getFileEntries_loop (modid_jars this) path))"

subsection \<open>The block states of a namespace\<close>

definition endsWith :: "string \<Rightarrow> string \<Rightarrow> bool" where
  "endsWith s x = (length x \<le> length s \<and> drop (length s - length x) s = x)"

text \<open>
  \<^verbatim>\<open>libpath.basename\<close> with the separator \<^verbatim>\<open>/\<close>, for a name that does not end in
  one (it is only applied to names that end in \<^verbatim>\<open>.json\<close>).
\<close>

definition basename :: "string \<Rightarrow> string" where
  "basename s = rev (takeWhile (\<lambda>c. c \<noteq> CHR ''/'') (rev s))"

text \<open>
  \<^verbatim>\<open>state.identifier = ...\<close> in the strict code of a class: a \<^verbatim>\<open>TypeError\<close> on
  \<^verbatim>\<open>undefined\<close>, \<^verbatim>\<open>null\<close> and on a primitive value. On an array the assignment adds
  a named property, which is no element of the array; nothing that the list of blocks
  reads looks at it, and the tree keeps the array as it is.
\<close>

fun set_identifier :: "json option \<Rightarrow> string \<Rightarrow> error + json" where
  "set_identifier (Some (JObj kvs)) v = Inr (JObj (AList.update ''identifier'' (JStr v) kvs))"
| "set_identifier (Some (JArr xs)) v = Inr (JArr xs)"
| "set_identifier _ v = Inl TypeError"

fun getBlockStates_loop ::
    "parser \<Rightarrow> json Minecraft \<Rightarrow> string \<Rightarrow> ZipEntry list \<Rightarrow> json list \<Rightarrow> (error + json list) \<times> json Minecraft" where
  "getBlockStates_loop P this ns [] states = (Inr states, this)"
| "getBlockStates_loop P this ns (file # files) states =
     (if \<not> endsWith (entry_name file) ''.json'' then getBlockStates_loop P this ns files states
      else
        (let filename = (let b = basename (entry_name file) in take (length b - 5) b)
         in case getParsedJson P this (entry_name file) of
              (Inl e, this1) \<Rightarrow> (Inl e, this1)
            | (Inr state, this1) \<Rightarrow>
                (case set_identifier state (ns @ '':'' @ filename) of
                   Inl e \<Rightarrow> (Inl e, this1)
                 | Inr state' \<Rightarrow> getBlockStates_loop P this1 ns files (states @ [state']))))"

definition getBlockStates :: "parser \<Rightarrow> json Minecraft \<Rightarrow> string option \<Rightarrow> (error + json list) \<times> json Minecraft" where
  "getBlockStates P this ns_arg =
     (let ns = (case ns_arg of None \<Rightarrow> defaultNamespace this | Some n \<Rightarrow> n)
      in case getFileEntries this (''assets/'' @ ns @ ''/blockstates'') of
           Inl e \<Rightarrow> (Inl e, this)
         | Inr files \<Rightarrow> getBlockStates_loop P this ns files [])"

subsection \<open>The model of a block state\<close>

text \<open>
  The choice of the variant in \<^verbatim>\<open>getModelFromBlockState\<close>:
  \<^verbatim>\<open>block_state.variants['']\<close>, else the value under the first key that
  \<^verbatim>\<open>for ... in\<close> enumerates, and of an array its first element. Reading a property of
  \<^verbatim>\<open>undefined\<close> or \<^verbatim>\<open>null\<close> throws.
\<close>

definition default_variant :: "json \<Rightarrow> error + json option" where
  "default_variant block_state =
     (case get_prop block_state ''variants'' of
        None \<Rightarrow> Inl TypeError
      | Some JNull \<Rightarrow> Inl TypeError
      | Some variants \<Rightarrow>
          (let v0 = get_prop variants [];
               v1 = (if \<not> truthy_opt v0
                     then (case own_props variants of [] \<Rightarrow> v0 | (key, v) # _ \<Rightarrow> Some v)
                     else v0)
           in case v1 of
                Some (JArr []) \<Rightarrow> Inr None
              | Some (JArr (x # _)) \<Rightarrow> Inr (Some x)
              | _ \<Rightarrow> Inr v1))"

text \<open>\<^verbatim>\<open>default_variant.model\<close>.\<close>

definition variant_model :: "json option \<Rightarrow> error + json option" where
  "variant_model v =
     (case v of
        None \<Rightarrow> Inl TypeError
      | Some JNull \<Rightarrow> Inl TypeError
      | Some variant \<Rightarrow> Inr (get_prop variant ''model''))"

text \<open>
  The argument of \<^verbatim>\<open>getModelFile(blockName)\<close>: \<^verbatim>\<open>undefined\<close> selects the default
  of the parameter, any other value is used as the name.
\<close>

definition name_argument :: "json option \<Rightarrow> error + string option" where
  "name_argument blockName =
     (case blockName of
        None \<Rightarrow> Inr None
      | Some v \<Rightarrow> (case as_name v of Inl e \<Rightarrow> Inl e | Inr s \<Rightarrow> Inr (Some s)))"

text \<open>
  \<^verbatim>\<open>let parent = model_file.parent; model_file.parent = undefined\<close> for a truthy
  \<open>model_file\<close>: the assignment throws on a primitive value and adds a named
  property to an array. A property that holds \<^verbatim>\<open>undefined\<close> reads like one that is
  not there, so the key leaves the tree.
\<close>

fun take_parent :: "json \<Rightarrow> error + json option \<times> json" where
  "take_parent (JObj kvs) = Inr (map_of kvs ''parent'', JObj (AList.delete ''parent'' kvs))"
| "take_parent (JArr xs) = Inr (None, JArr xs)"
| "take_parent _ = Inl TypeError"

fun fields_of :: "json \<Rightarrow> (string \<times> json) list" where
  "fields_of (JObj kvs) = kvs"
| "fields_of _ = []"

text \<open>
  \<^verbatim>\<open>deepAssign(model_file, { blockName })\<close> where \<open>blockName\<close> may be
  \<^verbatim>\<open>undefined\<close>, which the property then holds.
\<close>

definition stamp_opt :: "(string \<times> json) list \<Rightarrow> string option \<Rightarrow> json" where
  "stamp_opt model blockName =
     (case blockName of
        None \<Rightarrow> JObj (AList.delete ''blockName'' model)
      | Some s \<Rightarrow> stamp model s)"

text \<open>
  \<^verbatim>\<open>getModelFromBlockState(block_state)\<close>. An array is no object for
  \<^verbatim>\<open>deepAssign\<close>; a \<open>model_file\<close> that is one has no \<^verbatim>\<open>display\<close> and so
  always takes the fallback parent. The warning on the console is not part of the model.
\<close>

definition getModelFromBlockState ::
    "nat \<Rightarrow> parser \<Rightarrow> json Minecraft \<Rightarrow> json \<Rightarrow> ((error + json option) \<times> json Minecraft) option" where
  "getModelFromBlockState fuel P this block_state =
     (case default_variant block_state of
        Inl e \<Rightarrow> Some (Inl e, this)
      | Inr dv \<Rightarrow>
     (case variant_model dv of
        Inl e \<Rightarrow> Some (Inl e, this)
      | Inr blockName \<Rightarrow>
     (case name_argument blockName of
        Inl e \<Rightarrow> Some (Inl e, this)
      | Inr name_arg \<Rightarrow>
     (case getModelFile P this name_arg of
        (Inl e, this1) \<Rightarrow> Some (Inl e, this1)
      | (Inr None, this1) \<Rightarrow> Some (Inr None, this1)
      | (Inr (Some model_file), this1) \<Rightarrow>
          if \<not> truthy model_file then Some (Inr None, this1)
          else
     (case take_parent model_file of
        Inl e \<Rightarrow> Some (Inl e, this1)
      | Inr (parent0, model_file1) \<Rightarrow>
          (let parent = (if \<not> truthy_opt parent0 \<and> no_gui (fields_of model_file1)
                         then Some (JStr ''minecraft:block/block'') else parent0)
           in case parent of
                None \<Rightarrow> Some (Inr (Some (stamp_opt (fields_of model_file1) name_arg)), this1)
              | Some pv \<Rightarrow>
                  if \<not> truthy pv
                  then Some (Inr (Some (stamp_opt (fields_of model_file1) name_arg)), this1)
                  else
                    (case as_name pv of
                       Inl e \<Rightarrow> Some (Inl e, this1)
                     | Inr p \<Rightarrow>
                         (case getModel fuel P this1 p of
                            None \<Rightarrow> None
                          | Some (Inl e, this2) \<Rightarrow> Some (Inl e, this2)
                          | Some (Inr inherited, this2) \<Rightarrow>
                              (case push_parent (deepAssign [] [inherited, model_file1]) (JStr p) of
                                 Inl e \<Rightarrow> Some (Inl e, this2)
                               | Inr model' \<Rightarrow>
                                   Some (Inr (Some (stamp_opt model' name_arg)), this2))))))))))"

subsection \<open>All blocks of a namespace\<close>

text \<open>
  \<^verbatim>\<open>getBlockList\<close> starts one \<^verbatim>\<open>getModelFromBlockState\<close> per state and waits with
  \<^verbatim>\<open>Promise.allSettled\<close>. The calls share nothing but the cache, and what a call
  returns does not depend on what the others have put there (\<open>getModel_same_docs\<close>
  below), so the model runs them one after the other. Each outcome is kept as settled:
  \<open>Inl\<close> rejected, \<open>Inr\<close> fulfilled. A call that never settles leaves the whole
  list unsettled (\<open>None\<close>).
\<close>

fun settle_all ::
    "nat \<Rightarrow> parser \<Rightarrow> json Minecraft \<Rightarrow> json list \<Rightarrow> ((error + json option) list \<times> json Minecraft) option" where
  "settle_all fuel P this [] = Some ([], this)"
| "settle_all fuel P this (state # states) =
     (case getModelFromBlockState fuel P this state of
        None \<Rightarrow> None
      | Some (outcome, this1) \<Rightarrow>
          (case settle_all fuel P this1 states of
             None \<Rightarrow> None
           | Some (outcomes, this2) \<Rightarrow> Some (outcome # outcomes, this2)))"

text \<open>The loop over the settled promises: the fulfilled ones with a truthy value.\<close>

fun fulfilled_values :: "(error + json option) list \<Rightarrow> json list" where
  "fulfilled_values [] = []"
| "fulfilled_values (Inr (Some v) # rest) =
     (if truthy v then v # fulfilled_values rest else fulfilled_values rest)"
| "fulfilled_values (_ # rest) = fulfilled_values rest"

definition getBlockList ::
    "nat \<Rightarrow> parser \<Rightarrow> json Minecraft \<Rightarrow> string option \<Rightarrow> ((error + json list) \<times> json Minecraft) option" where
  "getBlockList fuel P this ns_arg =
     (case getBlockStates P this ns_arg of
        (Inl e, this1) \<Rightarrow> Some (Inl e, this1)
      | (Inr states, this1) \<Rightarrow>
          (case settle_all fuel P this1 states of
             None \<Rightarrow> None
           | Some (outcomes, this2) \<Rightarrow> Some (Inr (fulfilled_values outcomes), this2)))"

section \<open>Objects in a store\<close>

text \<open>
  Whether two documents share an object cannot be read off a tree. Here a value is a
  primitive or a reference to a cell of the store, a cell is an object or an array, and
  a new cell gets the next address. A write to a property or an element of an object
  replaces the content of its cell (\<open>h[a := c]\<close>).
\<close>

type_synonym addr = nat

datatype val = VNull | VBool bool | VNum rat | VStr string | VRef addr

datatype cell = Obj "(string \<times> val) list" | Arr "val list"

type_synonym store = "cell list"

fun truthy_val :: "val \<Rightarrow> bool" where
  "truthy_val VNull = False"
| "truthy_val (VBool b) = b"
| "truthy_val (VNum n) = (n \<noteq> 0)"
| "truthy_val (VStr s) = (s \<noteq> [])"
| "truthy_val (VRef a) = True"

fun truthy_val_opt :: "val option \<Rightarrow> bool" where
  "truthy_val_opt None = False"
| "truthy_val_opt (Some v) = truthy_val v"

text \<open>
  What \<^verbatim>\<open>JSON.parse\<close> creates for a tree: one new cell for every array and every
  object of it, and nothing else.
\<close>

fun build :: "json \<Rightarrow> store \<Rightarrow> val \<times> store"
  and build_list :: "json list \<Rightarrow> store \<Rightarrow> val list \<times> store"
  and build_fields :: "(string \<times> json) list \<Rightarrow> store \<Rightarrow> (string \<times> val) list \<times> store" where
  "build JNull h = (VNull, h)"
| "build (JBool b) h = (VBool b, h)"
| "build (JNum n) h = (VNum n, h)"
| "build (JStr s) h = (VStr s, h)"
| "build (JArr xs) h = (case build_list xs h of (vs, h1) \<Rightarrow> (VRef (length h1), h1 @ [Arr vs]))"
| "build (JObj kvs) h = (case build_fields kvs h of (fs, h1) \<Rightarrow> (VRef (length h1), h1 @ [Obj fs]))"
| "build_list [] h = ([], h)"
| "build_list (x # xs) h =
     (case build x h of (v, h1) \<Rightarrow>
        (case build_list xs h1 of (vs, h2) \<Rightarrow> (v # vs, h2)))"
| "build_fields [] h = ([], h)"
| "build_fields ((k, x) # kvs) h =
     (case build x h of (v, h1) \<Rightarrow>
        (case build_fields kvs h1 of (fs, h2) \<Rightarrow> ((k, v) # fs, h2)))"

text \<open>
  The tree that a value stands for, followed to a depth of at most \<open>n\<close> cells;
  \<open>None\<close> when the depth does not suffice.
\<close>

fun read_tree :: "nat \<Rightarrow> store \<Rightarrow> val \<Rightarrow> json option"
  and read_list :: "nat \<Rightarrow> store \<Rightarrow> val list \<Rightarrow> json list option"
  and read_fields :: "nat \<Rightarrow> store \<Rightarrow> (string \<times> val) list \<Rightarrow> (string \<times> json) list option" where
  "read_tree n h VNull = Some JNull"
| "read_tree n h (VBool b) = Some (JBool b)"
| "read_tree n h (VNum x) = Some (JNum x)"
| "read_tree n h (VStr s) = Some (JStr s)"
| "read_tree 0 h (VRef a) = None"
| "read_tree (Suc n) h (VRef a) =
     (if a < length h then
        (case h ! a of
           Arr vs \<Rightarrow> map_option JArr (read_list n h vs)
         | Obj fs \<Rightarrow> map_option JObj (read_fields n h fs))
      else None)"
| "read_list n h [] = Some []"
| "read_list n h (v # vs) =
     (case read_tree n h v of
        None \<Rightarrow> None
      | Some x \<Rightarrow> (case read_list n h vs of None \<Rightarrow> None | Some xs \<Rightarrow> Some (x # xs)))"
| "read_fields n h [] = Some []"
| "read_fields n h ((k, v) # fs) =
     (case read_tree n h v of
        None \<Rightarrow> None
      | Some x \<Rightarrow> (case read_fields n h fs of None \<Rightarrow> None | Some kvs \<Rightarrow> Some ((k, x) # kvs)))"

text \<open>
  \<^verbatim>\<open>JSON.stringify\<close> yields the text of the tree and throws a \<^verbatim>\<open>TypeError\<close> on a
  structure that contains itself. A chain of distinct cells is no longer than the store,
  so a depth beyond its size is only exhausted on a cycle.
\<close>

definition stringify :: "store \<Rightarrow> val \<Rightarrow> error + json" where
  "stringify h v =
     (case read_tree (Suc (length h)) h v of
        None \<Rightarrow> Inl TypeError
      | Some doc \<Rightarrow> Inr doc)"

text \<open>\<^verbatim>\<open>clone(input)\<close> is \<^verbatim>\<open>JSON.parse(JSON.stringify(input))\<close>.\<close>

definition clone_s :: "store \<Rightarrow> val \<Rightarrow> (error + val) \<times> store" where
  "clone_s h input =
     (case stringify h input of
        Inl e \<Rightarrow> (Inl e, h)
      | Inr doc \<Rightarrow> (case build doc h of (v, h1) \<Rightarrow> (Inr v, h1)))"

fun parseJson_s :: "parser \<Rightarrow> val parse_input \<Rightarrow> store \<Rightarrow> (error + val) \<times> store" where
  "parseJson_s P (ABuffer data) h =
     (case P data of Inl e \<Rightarrow> (Inl e, h) | Inr doc \<Rightarrow> (case build doc h of (v, h1) \<Rightarrow> (Inr v, h1)))"
| "parseJson_s P (AnObject data) h = clone_s h data"
| "parseJson_s P (AString data) h =
     (case P data of Inl e \<Rightarrow> (Inl e, h) | Inr doc \<Rightarrow> (case build doc h of (v, h1) \<Rightarrow> (Inr v, h1)))"
| "parseJson_s P Other h = (Inr VNull, h)"

text \<open>\<^verbatim>\<open>getParsedJson(path)\<close> again, with the cache holding references.\<close>

definition getParsedJson_s ::
    "parser \<Rightarrow> val Minecraft \<times> store \<Rightarrow> string \<Rightarrow> (error + val option) \<times> val Minecraft \<times> store" where
  "getParsedJson_s P st path =
     (case st of (this, h) \<Rightarrow>
       (let filled =
          (if \<not> truthy_val_opt (cache this path) then
             (case getFile this path of
                Inl e \<Rightarrow> Inl e
              | Inr None \<Rightarrow> Inr (this, h)
              | Inr (Some data) \<Rightarrow>
                  (case parseJson_s P (ABuffer data) h of
                     (Inl e, h1) \<Rightarrow> Inl e
                   | (Inr v, h1) \<Rightarrow> Inr (this\<lparr> cache := (cache this)(path \<mapsto> v) \<rparr>, h1)))
           else Inr (this, h))
        in case filled of
             Inl e \<Rightarrow> (Inl e, this, h)
           | Inr (this1, h1) \<Rightarrow>
               (case cache this1 path of
                  Some v \<Rightarrow>
                    (if truthy_val v then
                       (case clone_s h1 v of
                          (Inl e, h2) \<Rightarrow> (Inl e, this1, h2)
                        | (Inr copy, h2) \<Rightarrow> (Inr (Some copy), this1, h2))
                     else (Inr None, this1, h1))
                | None \<Rightarrow> (Inr None, this1, h1))))"


section \<open>Auxiliary notions of the statements\<close>


text \<open>
  The document that an instance yields for a path and for a model name: the outcome of
  \<^verbatim>\<open>getParsedJson\<close> and of \<^verbatim>\<open>getModelFile\<close>, without the instance afterwards.
\<close>

definition document :: "parser \<Rightarrow> json Minecraft \<Rightarrow> string \<Rightarrow> error + json option" where
  "document P this path = fst (getParsedJson P this path)"

definition model_document :: "parser \<Rightarrow> json Minecraft \<Rightarrow> string \<Rightarrow> error + json option" where
  "model_document P this name = fst (getModelFile P this (Some name))"

text \<open>The outcome of a call without the instance afterwards.\<close>

definition outcome :: "('a \<times> 's) option \<Rightarrow> 'a option" where
  "outcome r = map_option fst r"

section \<open>Example archives\<close>

text \<open>An archive with the given files, and a parser given by a table of texts.\<close>

definition jar_of_files :: "(string \<times> buffer) list \<Rightarrow> Jar" where
  "jar_of_files files =
     \<lparr> read = (\<lambda>path. case map_of files path of
                          None \<Rightarrow> Inl (JarError ''no such entry'')
                        | Some content \<Rightarrow> Inr (Some content)),
       entries = (\<lambda>path. Inr (map (\<lambda>(n, content). \<lparr> entry_name = n \<rparr>)
                                 (filter (\<lambda>(n, content). take (length path) n = path) files))) \<rparr>"

definition table_parser :: "(string \<times> json) list \<Rightarrow> parser" where
  "table_parser table text =
     (case map_of table text of None \<Rightarrow> Inl SyntaxError | Some doc \<Rightarrow> Inr doc)"

definition example_files :: "(string \<times> buffer) list" where
  "example_files =
     [(''assets/minecraft/models/block/a.json'', ''A''),
      (''assets/minecraft/models/block/b.json'', ''B''),
      (''assets/minecraft/models/block/c.json'', ''C''),
      (''assets/minecraft/models/block/block.json'', ''R''),
      (''assets/minecraft/models/block/plain.json'', ''P''),
      (''assets/minecraft/models/block/broken.json'', ''X''),
      (''assets/minecraft/models/block/nothing.json'', ''null''),
      (''assets/minecraft/models/block/named.json'', ''N''),
      (''assets/minecraft/blockstates/good.json'', ''G''),
      (''assets/minecraft/blockstates/bad.json'', ''D''),
      (''assets/minecraft/blockstates/plain.json'', ''S'')]"

definition example_documents :: "(string \<times> json) list" where
  "example_documents =
     [(''A'', JObj [(''parent'', JStr ''block/b''),
                    (''textures'', JObj [(''all'', JStr ''a.png'')]),
                    (''elements'', JArr [JNum 1])]),
      (''B'', JObj [(''parent'', JStr ''minecraft:block/c''),
                    (''textures'', JObj [(''all'', JStr ''b.png''), (''side'', JStr ''s.png'')]),
                    (''elements'', JArr [JNum 2, JNum 3]),
                    (''ambientocclusion'', JBool False)]),
      (''C'', JObj [(''display'', JObj [(''gui'', JObj [(''scale'', JNum 1)])]),
                    (''shade'', JBool True)]),
      (''R'', JObj [(''display'', JObj [(''gui'', JObj [(''scale'', JNum 2)])])]),
      (''P'', JObj [(''textures'', JObj [(''all'', JStr ''p.png'')])]),
      (''X'', JObj [(''parent'', JStr ''block/missing'')]),
      (''null'', JNull),
      (''N'', JObj [(''parent'', JStr ''minecraft:block/c''),
                    (''blockName'', JStr ''custom''),
                    (''parents'', JArr [JStr ''zz''])]),
      (''G'', JObj [(''variants'',
                     JObj [(''facing=north'', JObj [(''model'', JStr ''block/b'')]),
                           ([], JObj [(''model'', JStr ''minecraft:block/a'')])])]),
      (''D'', JObj [(''variants'', JObj [([], JObj [(''model'', JStr ''block/broken'')])])]),
      (''S'', JObj [(''variants'', JObj [(''x'', JArr [JObj [(''model'', JStr ''plain'')]])])])]"

definition example_parser :: parser where
  "example_parser = table_parser example_documents"

definition example_instance :: "'v Minecraft" where
  "example_instance =
     Minecraft_open (\<lambda>p. jar_of_files []) (Inr (jar_of_files example_files)) None"

text \<open>An instance constructed with a namespace of its own, on an archive without files.\<close>

definition mymod_instance :: "'v Minecraft" where
  "mymod_instance =
     Minecraft_open (\<lambda>p. jar_of_files []) (Inr (jar_of_files [])) (Some ''mymod'')"

section \<open>The resolution as a function of the documents\<close>

text \<open>
  Two instances yield the same documents. \<^verbatim>\<open>getModel\<close> reads the instance only
  through \<^verbatim>\<open>getModelFile\<close>, and a call of \<^verbatim>\<open>getParsedJson\<close> changes no document
  (\<open>document_frame\<close>), so what \<^verbatim>\<open>getModel\<close> returns is a function of the
  documents: \<open>resolve\<close> is that function, a device of the proofs which
  \<open>getModel_resolve\<close> ties to \<open>getModel\<close>. \<open>D\<close> gives the document of a
  model name.
\<close>

definition same_docs :: "parser \<Rightarrow> json Minecraft \<Rightarrow> json Minecraft \<Rightarrow> bool" where
  "same_docs P s s' = (\<forall>path. document P s path = document P s' path)"

definition combine :: "json \<Rightarrow> (string \<times> json) list \<Rightarrow> string \<Rightarrow> string \<Rightarrow> error + json" where
  "combine inherited model p blockName =
     (case push_parent (deepAssign [] [inherited, JObj model]) (JStr p) of
        Inl e \<Rightarrow> Inl e
      | Inr model' \<Rightarrow> Inr (stamp model' blockName))"

text \<open>
  What \<^verbatim>\<open>getModel\<close> does with the file it has loaded, up to the recursive call: the
  destructuring, the fallback parent and the test of the parent. \<open>None\<close> stands for
  no parent to resolve.
\<close>

definition parent_step :: "json option \<Rightarrow> error + string option \<times> (string \<times> json) list" where
  "parent_step file =
     (case destructure file of
        Inl e \<Rightarrow> Inl e
      | Inr (parent0, model) \<Rightarrow>
          (let parent = (if \<not> truthy_opt parent0 \<and> no_gui model
                         then Some (JStr ''minecraft:block/block'') else parent0)
           in case parent of
                None \<Rightarrow> Inr (None, model)
              | Some pv \<Rightarrow>
                  if \<not> truthy pv then Inr (None, model)
                  else (case as_name pv of Inl e \<Rightarrow> Inl e | Inr p \<Rightarrow> Inr (Some p, model))))"

fun resolve :: "nat \<Rightarrow> (string \<Rightarrow> error + json option) \<Rightarrow> string \<Rightarrow> (error + json) option" where
  "resolve 0 D blockName = None"
| "resolve (Suc fuel) D blockName =
     (case D blockName of
        Inl e \<Rightarrow> Some (Inl e)
      | Inr file \<Rightarrow>
          (case parent_step file of
             Inl e \<Rightarrow> Some (Inl e)
           | Inr (None, model) \<Rightarrow> Some (Inr (stamp model blockName))
           | Inr (Some p, model) \<Rightarrow>
               (case resolve fuel D p of
                  None \<Rightarrow> None
                | Some (Inl e) \<Rightarrow> Some (Inl e)
                | Some (Inr inherited) \<Rightarrow> Some (combine inherited model p blockName))))"

text \<open>
  The value that the deep merge leaves at a key of the target when a source brings the
  value \<open>v\<close> for it and the target held \<open>tv\<close>: two objects are merged, anything
  else is replaced by \<open>v\<close>.
\<close>

definition merge_value :: "json option \<Rightarrow> json \<Rightarrow> json" where
  "merge_value tv v =
     (case (tv, v) of
        (Some (JObj tf), JObj sf) \<Rightarrow> JObj (assign_into tf sf)
      | _ \<Rightarrow> v)"

text \<open>A field of what a resolution returned, \<open>None\<close> when it returned no document.\<close>

definition result_field :: "(error + json) option \<Rightarrow> string \<Rightarrow> json option" where
  "result_field r k = (case r of Some (Inr v) \<Rightarrow> get_prop v k | _ \<Rightarrow> None)"

text \<open>
  The parent that \<^verbatim>\<open>getModel\<close> resolves for a document with the fields \<open>f\<close>:
  the one that the document names, or \<^verbatim>\<open>minecraft:block/block\<close>, which
  \<^verbatim>\<open>getModel\<close> puts in its place when the document has no truthy \<^verbatim>\<open>parent\<close>
  and no \<^verbatim>\<open>display.gui\<close>.
\<close>

definition has_parent :: "(string \<times> json) list \<Rightarrow> string \<Rightarrow> bool" where
  "has_parent f p =
     ((map_of f ''parent'' = Some (JStr p) \<and> p \<noteq> []) \<or>
      (\<not> truthy_opt (map_of f ''parent'') \<and> no_gui (AList.delete ''parent'' f) \<and>
       p = ''minecraft:block/block''))"

text \<open>
  A chain that passes a field on: from \<open>n\<close> along the parents \<open>ps\<close>, every
  document of the chain but the last has the next model as its parent, named or put in
  by the fallback, and has no field \<open>k\<close> of its own.
\<close>

fun passes_on :: "(string \<Rightarrow> error + json option) \<Rightarrow> string \<Rightarrow> string \<Rightarrow> string list \<Rightarrow> bool" where
  "passes_on D k n [] = True"
| "passes_on D k n (p # ps) =
     (case D n of
        Inr (Some (JObj f)) \<Rightarrow>
          has_parent f p \<and> map_of f k = None \<and> distinct (map fst f) \<and> passes_on D k p ps
      | _ \<Rightarrow> False)"

text \<open>
  The steps of \<^verbatim>\<open>getModelFromBlockState\<close> around its two calls: the name of the model
  that the state selects, what is done with the file of that model up to the call of
  \<^verbatim>\<open>getModel\<close>, and what is done with the descriptor of the parent.
\<close>

definition state_name :: "json \<Rightarrow> error + string option" where
  "state_name block_state =
     (case default_variant block_state of
        Inl e \<Rightarrow> Inl e
      | Inr dv \<Rightarrow>
          (case variant_model dv of
             Inl e \<Rightarrow> Inl e
           | Inr blockName \<Rightarrow> name_argument blockName))"

definition state_step :: "json \<Rightarrow> error + string option \<times> json" where
  "state_step model_file =
     (case take_parent model_file of
        Inl e \<Rightarrow> Inl e
      | Inr (parent0, model_file1) \<Rightarrow>
          (let parent = (if \<not> truthy_opt parent0 \<and> no_gui (fields_of model_file1)
                         then Some (JStr ''minecraft:block/block'') else parent0)
           in case parent of
                None \<Rightarrow> Inr (None, model_file1)
              | Some pv \<Rightarrow>
                  if \<not> truthy pv then Inr (None, model_file1)
                  else (case as_name pv of
                          Inl e \<Rightarrow> Inl e
                        | Inr p \<Rightarrow> Inr (Some p, model_file1))))"

definition state_combine :: "json \<Rightarrow> json \<Rightarrow> string \<Rightarrow> string option \<Rightarrow> error + json option" where
  "state_combine inherited model_file1 p name_arg =
     (case push_parent (deepAssign [] [inherited, model_file1]) (JStr p) of
        Inl e \<Rightarrow> Inl e
      | Inr model' \<Rightarrow> Inr (Some (stamp_opt model' name_arg)))"



text \<open>
  The store and an instance with references represent an instance with trees: the same
  archives, and under every path the cache with references holds a value that reads as
  the tree which the cache with trees holds there.
\<close>

definition represents :: "store \<Rightarrow> val Minecraft \<Rightarrow> json Minecraft \<Rightarrow> bool" where
  "represents h ths thj =
     (jar ths = jar thj \<and> modid_jars ths = modid_jars thj \<and>
      (\<forall>path. rel_option (\<lambda>v doc. stringify h v = Inr doc) (cache ths path) (cache thj path)))"

section \<open>Identifiers and the lookup across archives\<close>

lemma split_not_Nil: "split c s \<noteq> []"
  by (induction s) (auto split: list.splits)

lemma split_first:
  "split c s = takeWhile (\<lambda>x. x \<noteq> c) s #
     (case dropWhile (\<lambda>x. x \<noteq> c) s of [] \<Rightarrow> [] | _ # r \<Rightarrow> split c r)"
  by (induction s) (auto split: list.splits simp: split_not_Nil)

text \<open>The destructuring in \<^verbatim>\<open>id\<close> always finds its two parts.\<close>

lemma split_colon_two:
  "c \<in> set s \<Longrightarrow> \<exists>a b rest. split c s = a # b # rest"
  by (induction s) (auto split: list.splits simp: split_not_Nil)

lemma split_prefixed:
  assumes "c \<notin> set ns"
  shows "split c (ns @ c # rest) = ns # split c rest"
  using assms by (induction ns) (auto simp: split_not_Nil split: list.splits)

lemma getFile_loop_first: "getFile_loop js path = first_successful (map snd js) path"
  by (induction js path rule: getFile_loop.induct) (auto split: sum.splits option.splits)

lemma getFile_first:
  "getFile this path = Inr (first_successful (jar this # map snd (modid_jars this)) path)"
  by (auto simp: getFile_def getFile_loop_first split: sum.splits option.splits)

lemma first_successful_None:
  "first_successful js path = None \<longleftrightarrow> (\<forall>j \<in> set js. \<forall>b. read j path \<noteq> Inr (Some b))"
  by (induction js) (auto split: sum.splits option.splits)






section \<open>The cache does not change what a path yields\<close>

lemma getFile_Inr: "\<exists>r. getFile this path = Inr r"
  by (simp add: getFile_first del: first_successful.simps)

lemma getFile_cache_update: "getFile (this\<lparr> cache := c \<rparr>) path = getFile this path"
  by (simp add: getFile_def split: option.splits sum.splits)

lemma getParsedJson_hit:
  assumes "cache this path = Some doc" and "truthy doc"
  shows "getParsedJson P this path = (Inr (Some doc), this)"
  using assms by (simp add: getParsedJson_def clone_def)

lemma getParsedJson_absent:
  assumes "\<not> truthy_opt (cache this path)" and "getFile this path = Inr None"
  shows "getParsedJson P this path = (Inr None, this)"
  using assms by (cases "cache this path") (simp_all add: getParsedJson_def)

lemma getParsedJson_unparsable:
  assumes "\<not> truthy_opt (cache this path)" and "getFile this path = Inr (Some data)"
    and "P data = Inl e"
  shows "getParsedJson P this path = (Inl e, this)"
  using assms by (cases "cache this path") (simp_all add: getParsedJson_def)

lemma getParsedJson_miss:
  assumes "\<not> truthy_opt (cache this path)" and "getFile this path = Inr (Some data)"
    and "P data = Inr doc"
  shows "getParsedJson P this path =
           (if truthy doc then Inr (Some doc) else Inr None,
            this\<lparr> cache := (cache this)(path \<mapsto> doc) \<rparr>)"
  using assms by (cases "cache this path") (simp_all add: getParsedJson_def clone_def)

text \<open>The four cases are all there are.\<close>

lemma getParsedJson_cases:
  obtains (hit) doc where "cache this path = Some doc" "truthy doc"
      "getParsedJson P this path = (Inr (Some doc), this)"
  | (absent) "\<not> truthy_opt (cache this path)" "getFile this path = Inr None"
      "getParsedJson P this path = (Inr None, this)"
  | (unparsable) data e where "\<not> truthy_opt (cache this path)"
      "getFile this path = Inr (Some data)" "P data = Inl e"
      "getParsedJson P this path = (Inl e, this)"
  | (miss) data doc where "\<not> truthy_opt (cache this path)"
      "getFile this path = Inr (Some data)" "P data = Inr doc"
      "getParsedJson P this path =
         (if truthy doc then Inr (Some doc) else Inr None,
          this\<lparr> cache := (cache this)(path \<mapsto> doc) \<rparr>)"
proof (cases "truthy_opt (cache this path)")
  case True
  then obtain doc where "cache this path = Some doc" "truthy doc"
    by (cases "cache this path") auto
  then show ?thesis using hit getParsedJson_hit by blast
next
  case False
  obtain r where r: "getFile this path = Inr r" using getFile_Inr by blast
  show ?thesis
  proof (cases r)
    case None
    then show ?thesis using absent False r getParsedJson_absent by blast
  next
    case (Some data)
    show ?thesis
    proof (cases "P data")
      case (Inl e)
      then show ?thesis using unparsable [of data e] False r Some getParsedJson_unparsable by blast
    next
      case (Inr doc)
      then show ?thesis
        using miss [of data doc] False r Some getParsedJson_miss [of this path data P doc] by blast
    qed
  qed
qed

lemma document_cong:
  assumes c: "cache s' path = cache s path" and f: "getFile s' path = getFile s path"
  shows "document P s' path = document P s path"
proof (cases rule: getParsedJson_cases [of s path P])
  case (hit doc)
  then show ?thesis using getParsedJson_hit [of s' path doc P] c by (simp add: document_def)
next
  case absent
  then show ?thesis using getParsedJson_absent [of s' path P] c f by (simp add: document_def)
next
  case (unparsable data e)
  then show ?thesis using getParsedJson_unparsable [of s' path data P e] c f
    by (simp add: document_def)
next
  case (miss data doc)
  then show ?thesis using getParsedJson_miss [of s' path data P doc] c f
    by (simp add: document_def)
qed

lemma document_frame:
  "document P (snd (getParsedJson P this q)) path = document P this path"
proof (cases rule: getParsedJson_cases [of this q P])
  case (hit doc)
  then show ?thesis by simp
next
  case absent
  then show ?thesis by simp
next
  case (unparsable data e)
  then show ?thesis by simp
next
  case (miss data doc)
  let ?s = "this\<lparr> cache := (cache this)(q \<mapsto> doc) \<rparr>"
  have s: "snd (getParsedJson P this q) = ?s" using miss(4) by simp
  show ?thesis
  proof (cases "path = q")
    case False
    then have "document P ?s path = document P this path"
      by (intro document_cong) (simp_all add: getFile_cache_update)
    then show ?thesis by (simp only: s)
  next
    case True
    show ?thesis
    proof (cases "truthy doc")
      case True
      have "getParsedJson P ?s q = (Inr (Some doc), ?s)"
        using True by (intro getParsedJson_hit) simp_all
      then show ?thesis using miss(4) True \<open>path = q\<close> by (simp add: document_def s)
    next
      case False
      have "getParsedJson P ?s q = (Inr None, ?s\<lparr> cache := (cache ?s)(q \<mapsto> doc) \<rparr>)"
        using getParsedJson_miss [of ?s q data P doc] False miss(2,3)
        by (simp add: getFile_cache_update)
      then show ?thesis using miss(4) False \<open>path = q\<close> by (simp add: document_def s)
    qed
  qed
qed

lemma same_docs_refl: "same_docs P s s"
  by (simp add: same_docs_def)

lemma same_docs_trans: "same_docs P s t \<Longrightarrow> same_docs P t u \<Longrightarrow> same_docs P s u"
  by (simp add: same_docs_def)

lemma same_docs_sym: "same_docs P s t \<Longrightarrow> same_docs P t s"
  by (simp add: same_docs_def)

lemma same_docs_getParsedJson: "same_docs P s (snd (getParsedJson P s q))"
  by (simp add: same_docs_def document_frame)

lemma same_docs_getModelFile: "same_docs P s (snd (getModelFile P s name_arg))"
  by (simp add: getModelFile_def same_docs_getParsedJson Let_def)

lemma model_document_same:
  "same_docs P s s' \<Longrightarrow> model_document P s name = model_document P s' name"
  by (simp add: model_document_def getModelFile_def Let_def id_of_def same_docs_def document_def)

lemma getModelFile_split:
  "getModelFile P s (Some name) = (model_document P s name, snd (getModelFile P s (Some name)))"
  by (simp add: model_document_def)

text \<open>One call of \<open>getModel\<close>, in the terms of \<open>parent_step\<close> and \<open>combine\<close>.\<close>

lemma getModel_Suc:
  "getModel (Suc fuel) P s blockName =
     (case model_document P s blockName of
        Inl e \<Rightarrow> Some (Inl e, snd (getModelFile P s (Some blockName)))
      | Inr file \<Rightarrow>
          (case parent_step file of
             Inl e \<Rightarrow> Some (Inl e, snd (getModelFile P s (Some blockName)))
           | Inr (None, model) \<Rightarrow>
               Some (Inr (stamp model blockName), snd (getModelFile P s (Some blockName)))
           | Inr (Some p, model) \<Rightarrow>
               (case getModel fuel P (snd (getModelFile P s (Some blockName))) p of
                  None \<Rightarrow> None
                | Some (Inl e, s2) \<Rightarrow> Some (Inl e, s2)
                | Some (Inr inherited, s2) \<Rightarrow> Some (combine inherited model p blockName, s2))))"
proof -
  obtain r s1 where g: "getModelFile P s (Some blockName) = (r, s1)"
    by (cases "getModelFile P s (Some blockName)")
  then have m: "model_document P s blockName = r" by (simp add: model_document_def)
  show ?thesis
  proof (cases r)
    case (Inl e)
    then show ?thesis by (simp add: g m)
  next
    case (Inr doc_file)
    show ?thesis
    proof (cases "destructure doc_file")
      case (Inl e)
      then show ?thesis using Inr by (simp add: g m parent_step_def)
    next
      case dr: (Inr pm)
      obtain parent0 model where pm: "pm = (parent0, model)" by (cases pm)
      show ?thesis
        using Inr dr pm
        by (simp add: g m parent_step_def combine_def Let_def
              split: option.splits sum.splits prod.splits)
    qed
  qed
qed

text \<open>\<open>getModel\<close> leaves the documents as they are and returns what \<open>resolve\<close> says.\<close>

lemma getModel_resolve:
  "(\<forall>r s1. getModel fuel P s blockName = Some (r, s1) \<longrightarrow> same_docs P s s1) \<and>
   outcome (getModel fuel P s blockName) = resolve fuel (model_document P s) blockName"
proof (induction fuel arbitrary: s blockName)
  case 0
  show ?case by (simp add: outcome_def)
next
  case (Suc fuel)
  let ?s1 = "snd (getModelFile P s (Some blockName))"
  have d1: "same_docs P s ?s1" by (rule same_docs_getModelFile)
  have md: "model_document P ?s1 = model_document P s"
    using model_document_same [OF same_docs_sym [OF d1]] by (intro ext)
  have ih1: "same_docs P s s2" if "getModel fuel P ?s1 p = Some (r, s2)" for p r s2
    using Suc.IH [of ?s1 p] d1 same_docs_trans that by blast
  have ih2: "outcome (getModel fuel P ?s1 p) = resolve fuel (model_document P s) p" for p
    using Suc.IH [of ?s1 p] md by simp
  show ?case
  proof (cases "model_document P s blockName")
    case (Inl e)
    then show ?thesis using d1 by (simp add: getModel_Suc outcome_def del: getModel.simps)
  next
    case (Inr doc_file)
    show ?thesis
    proof (cases "parent_step doc_file")
      case (Inl e)
      then show ?thesis using Inr d1 by (simp add: getModel_Suc outcome_def del: getModel.simps)
    next
      case ps: (Inr pm)
      obtain po model where pm: "pm = (po, model)" by (cases pm)
      show ?thesis
      proof (cases po)
        case None
        then show ?thesis using Inr ps pm d1
          by (simp add: getModel_Suc outcome_def del: getModel.simps)
      next
        case (Some p)
        show ?thesis
        proof (cases "getModel fuel P ?s1 p")
          case None
          then have "resolve fuel (model_document P s) p = None"
            using ih2 [of p] by (simp add: outcome_def)
          then show ?thesis using Inr ps pm Some None
            by (simp add: getModel_Suc outcome_def del: getModel.simps)
        next
          case sm: (Some rs)
          obtain r s2 where rs: "rs = (r, s2)" by (cases rs)
          have res: "resolve fuel (model_document P s) p = Some r"
            using ih2 [of p] sm rs by (simp add: outcome_def)
          have d2: "same_docs P s s2" using ih1 sm rs by blast
          show ?thesis using Inr ps pm Some sm rs res d2
            by (cases r) (simp_all add: getModel_Suc outcome_def del: getModel.simps)
        qed
      qed
    qed
  qed
qed

lemma getModel_same_docs:
  assumes "same_docs P s s'"
  shows "outcome (getModel fuel P s blockName) = outcome (getModel fuel P s' blockName)"
proof -
  have "model_document P s = model_document P s'"
    using model_document_same [OF assms] by (intro ext)
  then show ?thesis using getModel_resolve [of fuel P s blockName] getModel_resolve [of fuel P s' blockName]
    by simp
qed

lemma getModel_keeps_docs:
  "getModel fuel P s blockName = Some (r, s1) \<Longrightarrow> same_docs P s s1"
  using getModel_resolve by blast

section \<open>Properties of the deep merge\<close>

lemma assign_into_Cons:
  "assign_into t ((k, v) # s) = assign_into (AList.update k (merge_value (map_of t k) v) t) s"
  by (simp add: merge_value_def)

lemma map_of_assign_into_other:
  "k \<notin> fst ` set s \<Longrightarrow> map_of (assign_into t s) k = map_of t k"
proof (induction s arbitrary: t)
  case Nil
  show ?case by simp
next
  case (Cons kv s)
  obtain k' v' where kv: "kv = (k', v')" by (cases kv)
  have "k \<noteq> k'" and "k \<notin> fst ` set s" using Cons.prems kv by auto
  then show ?case
    unfolding kv assign_into_Cons using Cons.IH by (simp add: update_conv')
qed

lemma map_of_assign_into:
  "distinct (map fst s) \<Longrightarrow>
     map_of (assign_into t s) k =
       (case map_of s k of
          None \<Rightarrow> map_of t k
        | Some v \<Rightarrow> Some (merge_value (map_of t k) v))"
proof (induction s arbitrary: t)
  case Nil
  show ?case by simp
next
  case (Cons kv s)
  obtain k' v' where kv: "kv = (k', v')" by (cases kv)
  have d: "distinct (map fst s)" and n: "k' \<notin> fst ` set s" using Cons.prems kv by auto
  let ?t = "AList.update k' (merge_value (map_of t k') v') t"
  have ih: "map_of (assign_into ?t s) k =
       (case map_of s k of None \<Rightarrow> map_of ?t k | Some v \<Rightarrow> Some (merge_value (map_of ?t k) v))"
    using Cons.IH [OF d] .
  show ?case
  proof (cases "k = k'")
    case True
    then have "map_of s k = None" using n by (simp add: map_of_eq_None_iff)
    then show ?thesis unfolding kv assign_into_Cons ih using True by (simp add: update_conv')
  next
    case False
    then show ?thesis unfolding kv assign_into_Cons ih
      by (simp add: update_conv' split: option.splits)
  qed
qed

lemma distinct_assign_into:
  "distinct (map fst t) \<Longrightarrow> distinct (map fst (assign_into t s))"
proof (induction s arbitrary: t)
  case Nil
  then show ?case by simp
next
  case (Cons kv s)
  obtain k' v' where kv: "kv = (k', v')" by (cases kv)
  show ?case unfolding kv assign_into_Cons
    by (rule Cons.IH) (simp add: distinct_update Cons.prems)
qed

text \<open>The two sources of the merge in \<^verbatim>\<open>getModel\<close>.\<close>

lemma deepAssign_two:
  "deepAssign [] [JObj inh, JObj model] = assign_into (assign_into [] inh) model"
  by simp

lemma distinct_deepAssign_two: "distinct (map fst (deepAssign [] [JObj inh, JObj model]))"
  by (simp add: distinct_assign_into)

lemma stamp_fields:
  "stamp model blockName = JObj (AList.update ''blockName'' (JStr blockName) model)"
  by (simp add: stamp_def split: option.splits json.splits)

lemma push_parent_absent:
  assumes "\<not> truthy_opt (map_of model ''parents'')"
  shows "push_parent model p =
           Inr (AList.update ''parents'' (JArr [p]) (AList.update ''parents'' (JArr []) model))"
  using assms by (simp add: push_parent_def update_conv')

lemma push_parent_array:
  assumes "map_of model ''parents'' = Some (JArr ps)"
  shows "push_parent model p = Inr (AList.update ''parents'' (JArr (ps @ [p])) model)"
  using assms by (simp add: push_parent_def)

text \<open>
  When \<^verbatim>\<open>push\<close> succeeds the lineage is an array that ends in the parent, and every
  other field is as the merge left it.
\<close>

lemma push_parent_result:
  assumes "push_parent model p = Inr model'"
  shows "(\<exists>ps. map_of model' ''parents'' = Some (JArr (ps @ [p])) \<and>
               (if truthy_opt (map_of model ''parents'')
                then map_of model ''parents'' = Some (JArr ps) else ps = [])) \<and>
         (\<forall>k. k \<noteq> ''parents'' \<longrightarrow> map_of model' k = map_of model k) \<and>
         (distinct (map fst model) \<longrightarrow> distinct (map fst model'))"
proof (cases "truthy_opt (map_of model ''parents'')")
  case False
  then have "model' = AList.update ''parents'' (JArr [p]) (AList.update ''parents'' (JArr []) model)"
    using assms push_parent_absent by simp
  then show ?thesis using False by (simp add: update_conv' distinct_update)
next
  case True
  then obtain v where v: "map_of model ''parents'' = Some v" "truthy v"
    by (cases "map_of model ''parents''") auto
  then obtain ps where ps: "v = JArr ps"
    using assms True by (cases v) (simp_all add: push_parent_def)
  then have "model' = AList.update ''parents'' (JArr (ps @ [p])) model"
    using assms v push_parent_array by simp
  then show ?thesis using True v ps by (simp add: update_conv' distinct_update)
qed

text \<open>The resolution of a document that is an object, case by case.\<close>

lemma parent_step_object:
  "parent_step (Some (JObj f)) =
     (let model = AList.delete ''parent'' f;
          parent = (if \<not> truthy_opt (map_of f ''parent'') \<and> no_gui model
                    then Some (JStr ''minecraft:block/block'') else map_of f ''parent'')
      in case parent of
           None \<Rightarrow> Inr (None, model)
         | Some pv \<Rightarrow>
             if \<not> truthy pv then Inr (None, model)
             else (case as_name pv of Inl e \<Rightarrow> Inl e | Inr p \<Rightarrow> Inr (Some p, model)))"
  by (simp add: parent_step_def destructure_def Let_def)

lemma parent_step_named:
  assumes "map_of f ''parent'' = Some (JStr p)" and "p \<noteq> []"
  shows "parent_step (Some (JObj f)) = Inr (Some p, AList.delete ''parent'' f)"
  using assms by (simp add: parent_step_object)

lemma parent_step_final:
  assumes "\<not> truthy_opt (map_of f ''parent'')" and "\<not> no_gui (AList.delete ''parent'' f)"
  shows "parent_step (Some (JObj f)) = Inr (None, AList.delete ''parent'' f)"
  using assms by (cases "map_of f ''parent''") (simp_all add: parent_step_object)

lemma parent_step_fallback:
  assumes "\<not> truthy_opt (map_of f ''parent'')" and "no_gui (AList.delete ''parent'' f)"
  shows "parent_step (Some (JObj f)) = Inr (Some ''minecraft:block/block'', AList.delete ''parent'' f)"
  using assms by (simp add: parent_step_object)

text \<open>What \<open>combine\<close> leaves at the keys of its result.\<close>

lemma combine_result:
  assumes "combine (JObj inh) model p blockName = Inr result"
  shows "\<exists>res ps. result = JObj res \<and> distinct (map fst res) \<and>
           map_of res ''blockName'' = Some (JStr blockName) \<and>
           map_of res ''parents'' = Some (JArr (ps @ [JStr p])) \<and>
           (if truthy_opt (map_of (assign_into (assign_into [] inh) model) ''parents'')
            then map_of (assign_into (assign_into [] inh) model) ''parents'' = Some (JArr ps)
            else ps = []) \<and>
           (\<forall>k. k \<noteq> ''parents'' \<and> k \<noteq> ''blockName'' \<longrightarrow>
                 map_of res k = map_of (assign_into (assign_into [] inh) model) k)"
proof -
  let ?m = "assign_into (assign_into [] inh) model"
  obtain model' where p: "push_parent ?m (JStr p) = Inr model'"
    and r: "result = stamp model' blockName"
    using assms by (auto simp: combine_def split: sum.splits)
  have d: "distinct (map fst ?m)" by (simp add: distinct_assign_into)
  from push_parent_result [OF p] d obtain ps where
    ps: "map_of model' ''parents'' = Some (JArr (ps @ [JStr p]))"
      "if truthy_opt (map_of ?m ''parents'') then map_of ?m ''parents'' = Some (JArr ps) else ps = []"
    and others: "\<forall>k. k \<noteq> ''parents'' \<longrightarrow> map_of model' k = map_of ?m k"
    and d': "distinct (map fst model')"
    by blast
  let ?res = "AList.update ''blockName'' (JStr blockName) model'"
  have "result = JObj ?res" using r by (simp add: stamp_fields)
  moreover have "distinct (map fst ?res)" using d' by (simp add: distinct_update)
  moreover have "map_of ?res ''blockName'' = Some (JStr blockName)" by (simp add: update_conv')
  moreover have "map_of ?res ''parents'' = Some (JArr (ps @ [JStr p]))"
    using ps(1) by (simp add: update_conv')
  moreover have "\<forall>k. k \<noteq> ''parents'' \<and> k \<noteq> ''blockName'' \<longrightarrow> map_of ?res k = map_of ?m k"
    using others by (simp add: update_conv')
  ultimately show ?thesis using ps(2) by blast
qed

lemma combine_succeeds:
  assumes "\<not> truthy_opt (map_of (assign_into (assign_into [] inh) model) ''parents'') \<or>
           (\<exists>ps. map_of (assign_into (assign_into [] inh) model) ''parents'' = Some (JArr ps))"
  shows "\<exists>result. combine (JObj inh) model p blockName = Inr result"
  using assms
  by (auto simp: combine_def push_parent_absent push_parent_array split: sum.splits)

lemma combine_fresh:
  assumes "\<not> truthy_opt (map_of (assign_into (assign_into [] inh) model) ''parents'')"
  shows "combine (JObj inh) model p blockName =
           Inr (JObj (AList.update ''blockName'' (JStr blockName)
                  (AList.update ''parents'' (JArr [JStr p])
                     (AList.update ''parents'' (JArr [])
                        (assign_into (assign_into [] inh) model)))))"
  using assms by (simp add: combine_def push_parent_absent stamp_fields)

lemma combine_append:
  assumes "map_of (assign_into (assign_into [] inh) model) ''parents'' = Some (JArr ps)"
  shows "combine (JObj inh) model p blockName =
           Inr (JObj (AList.update ''blockName'' (JStr blockName)
                  (AList.update ''parents'' (JArr (ps @ [JStr p]))
                     (assign_into (assign_into [] inh) model))))"
  using assms by (simp add: combine_def push_parent_array stamp_fields)

lemma resolve_object:
  assumes "resolve fuel D n = Some (Inr r)"
  shows "\<exists>res. r = JObj res"
proof (cases fuel)
  case 0
  then show ?thesis using assms by simp
next
  case (Suc k)
  then show ?thesis using assms
    by (auto simp: combine_def stamp_fields split: sum.splits option.splits prod.splits)
qed

lemma getModel_outcome_Some:
  assumes "outcome (getModel fuel P s n) = Some r"
  shows "\<exists>s1. getModel fuel P s n = Some (r, s1)"
  using assms by (cases "getModel fuel P s n") (auto simp: outcome_def)

lemma resolve_named:
  assumes "D n = Inr (Some (JObj f))" and "map_of f ''parent'' = Some (JStr p)" and "p \<noteq> []"
  shows "resolve (Suc fuel) D n =
           (case resolve fuel D p of
              None \<Rightarrow> None
            | Some (Inl e) \<Rightarrow> Some (Inl e)
            | Some (Inr inherited) \<Rightarrow> Some (combine inherited (AList.delete ''parent'' f) p n))"
  using assms by (simp add: parent_step_named)

lemma resolve_final:
  assumes "D n = Inr (Some (JObj f))" and "\<not> truthy_opt (map_of f ''parent'')"
    and "\<not> no_gui (AList.delete ''parent'' f)"
  shows "resolve (Suc fuel) D n = Some (Inr (stamp (AList.delete ''parent'' f) n))"
  using assms by (simp add: parent_step_final)

lemma resolve_fallback:
  assumes "D n = Inr (Some (JObj f))" and "\<not> truthy_opt (map_of f ''parent'')"
    and "no_gui (AList.delete ''parent'' f)"
  shows "resolve (Suc fuel) D n =
           (case resolve fuel D ''minecraft:block/block'' of
              None \<Rightarrow> None
            | Some (Inl e) \<Rightarrow> Some (Inl e)
            | Some (Inr inherited) \<Rightarrow>
                Some (combine inherited (AList.delete ''parent'' f) ''minecraft:block/block'' n))"
  using assms by (simp add: parent_step_fallback)

lemma absent_key: "map_of f k = None \<Longrightarrow> k \<notin> fst ` set f"
  by (simp add: map_of_eq_None_iff)

text \<open>One level of the merge, and a whole chain of levels that do not define a field.\<close>

lemma combine_field:
  assumes c: "combine (JObj inh) model p n = Inr (JObj res)"
    and di: "distinct (map fst inh)" and dm: "distinct (map fst model)"
    and k: "k \<noteq> ''parents''" "k \<noteq> ''blockName''"
  shows "map_of res k =
           (case map_of model k of
              None \<Rightarrow> map_of inh k
            | Some v \<Rightarrow> Some (merge_value (map_of inh k) v))"
proof -
  have base: "map_of (assign_into [] inh) k = map_of inh k"
    by (simp add: map_of_assign_into [OF di] merge_value_def split: option.splits)
  from combine_result [OF c] k
  have "map_of res k = map_of (assign_into (assign_into [] inh) model) k" by auto
  then show ?thesis by (simp only: map_of_assign_into [OF dm] base)
qed

lemma combine_managed:
  assumes c: "combine (JObj inh) model p n = Inr (JObj res)"
  shows "\<exists>ps. map_of res ''blockName'' = Some (JStr n) \<and>
           map_of res ''parents'' = Some (JArr (ps @ [JStr p])) \<and>
           (if truthy_opt (map_of (assign_into (assign_into [] inh) model) ''parents'')
            then map_of (assign_into (assign_into [] inh) model) ''parents'' = Some (JArr ps)
            else ps = []) \<and>
           map_of res ''parent'' = map_of (assign_into (assign_into [] inh) model) ''parent''"
proof -
  from combine_result [OF c] obtain res' ps where
    r: "JObj res = JObj res'"
       "map_of res' ''blockName'' = Some (JStr n)"
       "map_of res' ''parents'' = Some (JArr (ps @ [JStr p]))"
       "if truthy_opt (map_of (assign_into (assign_into [] inh) model) ''parents'')
        then map_of (assign_into (assign_into [] inh) model) ''parents'' = Some (JArr ps)
        else ps = []"
       "\<forall>k. k \<noteq> ''parents'' \<and> k \<noteq> ''blockName'' \<longrightarrow>
            map_of res' k = map_of (assign_into (assign_into [] inh) model) k"
    by blast
  have e: "res' = res" using r(1) by simp
  have "map_of res ''parent'' = map_of (assign_into (assign_into [] inh) model) ''parent''"
    using r(5) unfolding e by simp
  then show ?thesis using r(2,3,4) unfolding e by blast
qed

lemma combine_distinct:
  assumes "combine (JObj inh) model p n = Inr (JObj res)"
  shows "distinct (map fst res)"
  using combine_result [OF assms] by auto

lemma has_parent_step:
  assumes "has_parent f p"
  shows "parent_step (Some (JObj f)) = Inr (Some p, AList.delete ''parent'' f)"
  using assms unfolding has_parent_def
  by (auto simp: parent_step_named parent_step_fallback)

text \<open>\<open>has_parent\<close> is the condition under which a parent is resolved, and no other.\<close>

lemma as_name_Inr: "as_name v = Inr p \<longleftrightarrow> v = JStr p"
  by (cases v) auto

lemma parent_step_has_parent:
  "parent_step (Some (JObj f)) = Inr (Some p, m) \<longleftrightarrow>
     has_parent f p \<and> m = AList.delete ''parent'' f"
proof (cases "\<not> truthy_opt (map_of f ''parent'') \<and> no_gui (AList.delete ''parent'' f)")
  case True
  then show ?thesis
    by (auto simp: parent_step_fallback has_parent_def)
next
  case False
  show ?thesis
  proof (cases "map_of f ''parent''")
    case None
    then show ?thesis using False
      by (auto simp: parent_step_object has_parent_def)
  next
    case (Some pv)
    then show ?thesis using False
      by (cases pv) (auto simp: parent_step_object has_parent_def Let_def)
  qed
qed

lemma resolve_parent:
  assumes "D n = Inr (Some (JObj f))" and "has_parent f p"
  shows "resolve (Suc fuel) D n =
           (case resolve fuel D p of
              None \<Rightarrow> None
            | Some (Inl e) \<Rightarrow> Some (Inl e)
            | Some (Inr inherited) \<Rightarrow> Some (combine inherited (AList.delete ''parent'' f) p n))"
  using assms by (simp add: has_parent_step)

lemma passes_on_step:
  assumes "passes_on D k n (p # ps)"
  obtains f where "D n = Inr (Some (JObj f))" "has_parent f p"
    "map_of f k = None" "distinct (map fst f)" "passes_on D k p ps"
  using assms by (auto split: sum.splits option.splits json.splits)

lemma resolve_field_passes:
  assumes "passes_on D k n ps"
    and k: "k \<noteq> ''parent''" "k \<noteq> ''parents''" "k \<noteq> ''blockName''"
    and "resolve (length ps + fuel) D n = Some (Inr (JObj res))"
  shows "\<exists>anc. resolve fuel D (last (n # ps)) = Some (Inr (JObj anc)) \<and>
               (distinct (map fst anc) \<longrightarrow> map_of res k = map_of anc k) \<and>
               (ps \<noteq> [] \<longrightarrow> distinct (map fst res))"
  using assms(1,5)
proof (induction ps arbitrary: n res)
  case Nil
  then show ?case by simp
next
  case (Cons p ps)
  from passes_on_step [OF Cons.prems(1)] obtain f where
    f: "D n = Inr (Some (JObj f))" "has_parent f p"
       "map_of f k = None" "distinct (map fst f)" "passes_on D k p ps"
    by blast
  let ?m = "AList.delete ''parent'' f"
  have step: "resolve (Suc (length ps + fuel)) D n =
           (case resolve (length ps + fuel) D p of
              None \<Rightarrow> None
            | Some (Inl e) \<Rightarrow> Some (Inl e)
            | Some (Inr inherited) \<Rightarrow> Some (combine inherited ?m p n))"
    by (rule resolve_parent [of D, OF f(1,2)])
  from Cons.prems(2) obtain inherited where
    i: "resolve (length ps + fuel) D p = Some (Inr inherited)"
    and c: "combine inherited ?m p n = Inr (JObj res)"
    unfolding length_Cons add_Suc step by (auto split: option.splits sum.splits)
  from resolve_object [OF i] obtain inh where inh: "inherited = JObj inh" by blast
  from Cons.IH [OF f(5) i [unfolded inh]] obtain anc where
    anc: "resolve fuel D (last (p # ps)) = Some (Inr (JObj anc))"
      "distinct (map fst anc) \<longrightarrow> map_of inh k = map_of anc k"
      "ps \<noteq> [] \<longrightarrow> distinct (map fst inh)"
    by blast
  have dres: "distinct (map fst res)" using combine_distinct [OF c [unfolded inh]] .
  have "map_of res k = map_of anc k" if d: "distinct (map fst anc)"
  proof -
    have di: "distinct (map fst inh)"
    proof (cases "ps = []")
      case True
      then have "JObj anc = JObj inh" using anc(1) i inh by simp
      then show ?thesis using d by simp
    next
      case False
      then show ?thesis using anc(3) by simp
    qed
    have dm: "distinct (map fst ?m)" using f(4) by (rule distinct_delete)
    have "map_of ?m k = None" using f(3) k(1) by simp
    then have "map_of res k = map_of inh k"
      using combine_field [OF c [unfolded inh] di dm k(2,3)] by simp
    then show ?thesis using anc(2) d by simp
  qed
  then show ?case using anc(1) dres by simp
qed

lemma getModel_field_passes:
  assumes "passes_on (model_document P this) k n ps"
    and "k \<noteq> ''parent''" "k \<noteq> ''parents''" "k \<noteq> ''blockName''"
    and "getModel (length ps + fuel) P this n = Some (Inr (JObj res), s)"
  shows "\<exists>anc s'. getModel fuel P this (last (n # ps)) = Some (Inr (JObj anc), s') \<and>
               (distinct (map fst anc) \<longrightarrow> map_of res k = map_of anc k)"
proof -
  have "resolve (length ps + fuel) (model_document P this) n = Some (Inr (JObj res))"
    using assms(5) getModel_resolve [of "length ps + fuel" P this n] by (simp add: outcome_def)
  from resolve_field_passes [OF assms(1-4) this] obtain anc where
    a: "resolve fuel (model_document P this) (last (n # ps)) = Some (Inr (JObj anc))"
       "distinct (map fst anc) \<longrightarrow> map_of res k = map_of anc k"
    by blast
  then have "outcome (getModel fuel P this (last (n # ps))) = Some (Inr (JObj anc))"
    using getModel_resolve [of fuel P this "last (n # ps)"] by simp
  then show ?thesis using getModel_outcome_Some a(2) by blast
qed

section \<open>The calls of a batch do not influence each other\<close>

lemma getModelFromBlockState_unfold:
  "getModelFromBlockState fuel P s block_state =
     (case state_name block_state of
        Inl e \<Rightarrow> Some (Inl e, s)
      | Inr name_arg \<Rightarrow>
          (case fst (getModelFile P s name_arg) of
             Inl e \<Rightarrow> Some (Inl e, snd (getModelFile P s name_arg))
           | Inr None \<Rightarrow> Some (Inr None, snd (getModelFile P s name_arg))
           | Inr (Some model_file) \<Rightarrow>
               if \<not> truthy model_file then Some (Inr None, snd (getModelFile P s name_arg))
               else
                 (case state_step model_file of
                    Inl e \<Rightarrow> Some (Inl e, snd (getModelFile P s name_arg))
                  | Inr (None, model_file1) \<Rightarrow>
                      Some (Inr (Some (stamp_opt (fields_of model_file1) name_arg)),
                            snd (getModelFile P s name_arg))
                  | Inr (Some p, model_file1) \<Rightarrow>
                      (case getModel fuel P (snd (getModelFile P s name_arg)) p of
                         None \<Rightarrow> None
                       | Some (Inl e, s2) \<Rightarrow> Some (Inl e, s2)
                       | Some (Inr inherited, s2) \<Rightarrow>
                           Some (state_combine inherited model_file1 p name_arg, s2)))))"
proof (cases "state_name block_state")
  case (Inl e)
  then show ?thesis
    by (auto simp: getModelFromBlockState_def state_name_def split: sum.splits)
next
  case sn: (Inr name_arg)
  obtain r s1 where g: "getModelFile P s name_arg = (r, s1)"
    by (cases "getModelFile P s name_arg")
  have start: "getModelFromBlockState fuel P s block_state =
     (case getModelFile P s name_arg of
        (Inl e, this1) \<Rightarrow> Some (Inl e, this1)
      | (Inr None, this1) \<Rightarrow> Some (Inr None, this1)
      | (Inr (Some model_file), this1) \<Rightarrow>
          if \<not> truthy model_file then Some (Inr None, this1)
          else
     (case take_parent model_file of
        Inl e \<Rightarrow> Some (Inl e, this1)
      | Inr (parent0, model_file1) \<Rightarrow>
          (let parent = (if \<not> truthy_opt parent0 \<and> no_gui (fields_of model_file1)
                         then Some (JStr ''minecraft:block/block'') else parent0)
           in case parent of
                None \<Rightarrow> Some (Inr (Some (stamp_opt (fields_of model_file1) name_arg)), this1)
              | Some pv \<Rightarrow>
                  if \<not> truthy pv
                  then Some (Inr (Some (stamp_opt (fields_of model_file1) name_arg)), this1)
                  else
                    (case as_name pv of
                       Inl e \<Rightarrow> Some (Inl e, this1)
                     | Inr p \<Rightarrow>
                         (case getModel fuel P this1 p of
                            None \<Rightarrow> None
                          | Some (Inl e, this2) \<Rightarrow> Some (Inl e, this2)
                          | Some (Inr inherited, this2) \<Rightarrow>
                              (case push_parent (deepAssign [] [inherited, model_file1]) (JStr p) of
                                 Inl e \<Rightarrow> Some (Inl e, this2)
                               | Inr model' \<Rightarrow>
                                   Some (Inr (Some (stamp_opt model' name_arg)), this2)))))))"
    using sn
    by (auto simp: getModelFromBlockState_def state_name_def split: sum.splits)
  show ?thesis
  proof (cases r)
    case (Inl e)
    then show ?thesis by (simp add: start sn g)
  next
    case ir: (Inr mo)
    show ?thesis
    proof (cases mo)
      case None
      then show ?thesis by (simp add: start sn g ir)
    next
      case (Some model_file)
      show ?thesis
      proof (cases "take_parent model_file")
        case (Inl e)
        then show ?thesis by (simp add: start sn g ir Some state_step_def)
      next
        case tp: (Inr pm)
        obtain parent0 model_file1 where pm: "pm = (parent0, model_file1)" by (cases pm)
        show ?thesis
          by (simp add: start sn g ir Some tp pm state_step_def state_combine_def Let_def
                split: option.splits sum.splits prod.splits)
      qed
    qed
  qed
qed

lemma getModelFile_fst_same:
  assumes "same_docs P s s'"
  shows "fst (getModelFile P s name_arg) = fst (getModelFile P s' name_arg)"
  using assms
  by (simp add: getModelFile_def Let_def id_of_def same_docs_def document_def)

lemma getModelFromBlockState_docs:
  assumes d: "same_docs P s s'"
  shows "outcome (getModelFromBlockState fuel P s block_state)
           = outcome (getModelFromBlockState fuel P s' block_state) \<and>
         (\<forall>r s1. getModelFromBlockState fuel P s block_state = Some (r, s1) \<longrightarrow> same_docs P s s1)"
proof (cases "state_name block_state")
  case (Inl e)
  then show ?thesis
    by (simp add: getModelFromBlockState_unfold outcome_def same_docs_refl)
next
  case sn: (Inr name_arg)
  let ?s1 = "snd (getModelFile P s name_arg)" and ?s1' = "snd (getModelFile P s' name_arg)"
  have f: "fst (getModelFile P s' name_arg) = fst (getModelFile P s name_arg)"
    using getModelFile_fst_same [OF d] by simp
  have d1: "same_docs P s ?s1" by (rule same_docs_getModelFile)
  have d1': "same_docs P ?s1 ?s1'"
    using same_docs_trans [OF same_docs_sym [OF d1]
            same_docs_trans [OF d same_docs_getModelFile [of P s' name_arg]]] .
  have gm: "outcome (getModel fuel P ?s1 p) = outcome (getModel fuel P ?s1' p)" for p
    using getModel_same_docs [OF d1'] .
  have keep: "same_docs P s s2" if "getModel fuel P ?s1 p = Some (r, s2)" for p r s2
    using same_docs_trans [OF d1 getModel_keeps_docs [OF that]] .
  show ?thesis
  proof (cases "fst (getModelFile P s name_arg)")
    case (Inl e)
    then show ?thesis using d1 by (simp add: getModelFromBlockState_unfold sn f outcome_def)
  next
    case ir: (Inr mo)
    show ?thesis
    proof (cases mo)
      case None
      then show ?thesis using d1 by (simp add: getModelFromBlockState_unfold sn f ir outcome_def)
    next
      case (Some model_file)
      show ?thesis
      proof (cases "truthy model_file")
        case False
        then show ?thesis using d1
          by (simp add: getModelFromBlockState_unfold sn f ir Some outcome_def)
      next
        case True
        show ?thesis
        proof (cases "state_step model_file")
          case (Inl e)
          then show ?thesis using d1
            by (simp add: getModelFromBlockState_unfold sn f ir Some True outcome_def)
        next
          case st: (Inr pm)
          obtain po model_file1 where pm: "pm = (po, model_file1)" by (cases pm)
          show ?thesis
          proof (cases po)
            case None
            then show ?thesis using d1
              by (simp add: getModelFromBlockState_unfold sn f ir Some True st pm outcome_def)
          next
            case sp: (Some p)
            show ?thesis
            proof (cases "getModel fuel P ?s1 p")
              case None
              then have "getModel fuel P ?s1' p = None"
                using gm [of p] by (simp add: outcome_def)
              then show ?thesis using None
                by (simp add: getModelFromBlockState_unfold sn f ir Some True st pm sp outcome_def)
            next
              case sm: (Some rs)
              obtain r s2 where rs: "rs = (r, s2)" by (cases rs)
              have "outcome (getModel fuel P ?s1' p) = Some r"
                using gm [of p] sm rs by (simp add: outcome_def)
              then obtain s2' where sm': "getModel fuel P ?s1' p = Some (r, s2')"
                using getModel_outcome_Some by blast
              have k: "same_docs P s s2" using keep sm rs by blast
              show ?thesis using k
                by (cases r)
                   (simp_all add: getModelFromBlockState_unfold sn f ir Some True st pm sp sm rs sm'
                      outcome_def)
            qed
          qed
        qed
      qed
    qed
  qed
qed

lemma settle_all_outcomes:
  assumes "same_docs P s0 s"
    and "\<forall>st \<in> set states. getModelFromBlockState fuel P s0 st \<noteq> None"
  shows "\<exists>outcomes s'. settle_all fuel P s states = Some (outcomes, s') \<and>
           map Some outcomes = map (\<lambda>st. outcome (getModelFromBlockState fuel P s0 st)) states"
  using assms
proof (induction states arbitrary: s)
  case Nil
  show ?case by simp
next
  case (Cons st states)
  have o: "outcome (getModelFromBlockState fuel P s0 st) = outcome (getModelFromBlockState fuel P s st)"
    using getModelFromBlockState_docs [OF Cons.prems(1)] by blast
  have "getModelFromBlockState fuel P s0 st \<noteq> None" using Cons.prems(2) by simp
  then have "getModelFromBlockState fuel P s st \<noteq> None"
    using o by (cases "getModelFromBlockState fuel P s st") (auto simp: outcome_def)
  then obtain r s1 where g: "getModelFromBlockState fuel P s st = Some (r, s1)" by auto
  have "same_docs P s s1"
    using getModelFromBlockState_docs [OF same_docs_refl [of P s], of fuel st] g by blast
  then have d1: "same_docs P s0 s1"
    using same_docs_trans [OF Cons.prems(1)] by blast
  from Cons.IH [OF d1] Cons.prems(2) obtain outcomes s' where
    rest: "settle_all fuel P s1 states = Some (outcomes, s')"
      "map Some outcomes = map (\<lambda>st. outcome (getModelFromBlockState fuel P s0 st)) states"
    by auto
  have "outcome (getModelFromBlockState fuel P s0 st) = Some r"
    using o g by (simp add: outcome_def)
  then show ?case using g rest by simp
qed

lemma fulfilled_values_member:
  "Inr (Some m) \<in> set outcomes \<Longrightarrow> truthy m \<Longrightarrow> m \<in> set (fulfilled_values outcomes)"
  by (induction outcomes rule: fulfilled_values.induct) auto

lemma same_docs_getBlockStates_loop:
  "same_docs P s (snd (getBlockStates_loop P s ns files states))"
proof (induction files arbitrary: s states)
  case Nil
  show ?case by (simp add: same_docs_refl)
next
  case (Cons file_entry files)
  show ?case
  proof (cases "endsWith (entry_name file_entry) ''.json''")
    case False
    then show ?thesis using Cons.IH by simp
  next
    case True
    obtain r s1 where g: "getParsedJson P s (entry_name file_entry) = (r, s1)"
      by (cases "getParsedJson P s (entry_name file_entry)")
    have d1: "same_docs P s s1" using same_docs_getParsedJson [of P s "entry_name file_entry"] g by simp
    show ?thesis
      using True g d1 Cons.IH [of s1] same_docs_trans [OF d1]
      by (auto simp: Let_def split: sum.splits)
  qed
qed

lemma same_docs_getBlockStates: "same_docs P s (snd (getBlockStates P s ns))"
  by (simp add: getBlockStates_def Let_def same_docs_getBlockStates_loop same_docs_refl
        split: sum.splits)

section \<open>Properties of the store\<close>

lemma read_mono:
  "read_tree n h v = Some j \<Longrightarrow> n \<le> m \<Longrightarrow> read_tree m (h @ ext) v = Some j"
  "read_list n h vs = Some js \<Longrightarrow> n \<le> m \<Longrightarrow> read_list m (h @ ext) vs = Some js"
  "read_fields n h fs = Some kjs \<Longrightarrow> n \<le> m \<Longrightarrow> read_fields m (h @ ext) fs = Some kjs"
proof (induction n h v and n h vs and n h fs arbitrary: j m and js m and kjs m
       rule: read_tree_read_list_read_fields.induct)
  case (6 n h a)
  from "6.prems" obtain m' where m: "m = Suc m'" "n \<le> m'" by (cases m) auto
  from "6.prems" have a: "a < length h" by (auto split: if_splits)
  show ?case
  proof (cases "h ! a")
    case (Arr vs)
    with "6.prems" a obtain js where js: "read_list n h vs = Some js" "j = JArr js"
      by auto
    from "6.IH"(2) [OF a Arr js(1) m(2)] show ?thesis
      using a Arr js(2) m(1) by (simp add: nth_append)
  next
    case (Obj fs)
    with "6.prems" a obtain kjs where kjs: "read_fields n h fs = Some kjs" "j = JObj kjs"
      by auto
    from "6.IH"(1) [OF a Obj kjs(1) m(2)] show ?thesis
      using a Obj kjs(2) m(1) by (simp add: nth_append)
  qed
next
  case (8 n h v vs)
  from "8.prems" obtain x xs where x: "read_tree n h v = Some x" "read_list n h vs = Some xs"
      "js = x # xs"
    by (auto split: option.splits)
  from "8.IH"(1) [OF x(1) "8.prems"(2)] "8.IH"(2) [OF x(1) x(2) "8.prems"(2)] x(3)
  show ?case by simp
next
  case (10 n h k v fs)
  from "10.prems" obtain x xs where x: "read_tree n h v = Some x" "read_fields n h fs = Some xs"
      "kjs = (k, x) # xs"
    by (auto split: option.splits)
  from "10.IH"(1) [OF x(1) "10.prems"(2)] "10.IH"(2) [OF x(1) x(2) "10.prems"(2)] x(3)
  show ?case by simp
qed (use le_Suc_eq in \<open>auto split: option.splits\<close>)

lemma build_extends:
  "build j h = (v, h') \<Longrightarrow> \<exists>ext. h' = h @ ext"
  "build_list xs h = (vs, h') \<Longrightarrow> \<exists>ext. h' = h @ ext"
  "build_fields kvs h = (fs, h') \<Longrightarrow> \<exists>ext. h' = h @ ext"
proof (induction j h and xs h and kvs h arbitrary: v h' and vs h' and fs h'
       rule: build_build_list_build_fields.induct)
  case (8 x xs h)
  obtain v1 h1 where b1: "build x h = (v1, h1)" by (cases "build x h")
  obtain vs2 h2 where b2: "build_list xs h1 = (vs2, h2)" by (cases "build_list xs h1")
  from "8.IH"(1) [OF b1] "8.IH"(2) [OF b1 [symmetric] b2] "8.prems" b1 b2
  show ?case by auto
next
  case (10 k x kvs h)
  obtain v1 h1 where b1: "build x h = (v1, h1)" by (cases "build x h")
  obtain fs2 h2 where b2: "build_fields kvs h1 = (fs2, h2)" by (cases "build_fields kvs h1")
  from "10.IH"(1) [OF b1] "10.IH"(2) [OF b1 [symmetric] b2] "10.prems" b1 b2
  show ?case by auto
qed (auto split: prod.splits)

lemma build_length: "build j h = (v, h') \<Longrightarrow> length h \<le> length h'"
  using build_extends(1) by fastforce

text \<open>What \<open>build\<close> has created reads as the tree it was created from.\<close>

lemma build_read:
  "build j h = (v, h') \<Longrightarrow> read_tree (length h' - length h) h' v = Some j"
  "build_list xs h = (vs, h') \<Longrightarrow> read_list (length h' - length h) h' vs = Some xs"
  "build_fields kvs h = (fs, h') \<Longrightarrow> read_fields (length h' - length h) h' fs = Some kvs"
proof (induction j h and xs h and kvs h arbitrary: v h' and vs h' and fs h'
       rule: build_build_list_build_fields.induct)
  case (5 xs h)
  obtain vs h1 where b: "build_list xs h = (vs, h1)" by (cases "build_list xs h")
  from build_extends(2) [OF b] obtain ext where e: "h1 = h @ ext" by blast
  have v: "v = VRef (length h1)" "h' = h1 @ [Arr vs]" using "5.prems" b by auto
  have "read_list (length h1 - length h) (h1 @ [Arr vs]) vs = Some xs"
    using read_mono(2) [OF "5.IH" [OF b] order_refl] .
  then show ?case using v e by (simp add: Suc_diff_le)
next
  case (6 kvs h)
  obtain fs h1 where b: "build_fields kvs h = (fs, h1)" by (cases "build_fields kvs h")
  from build_extends(3) [OF b] obtain ext where e: "h1 = h @ ext" by blast
  have v: "v = VRef (length h1)" "h' = h1 @ [Obj fs]" using "6.prems" b by auto
  have "read_fields (length h1 - length h) (h1 @ [Obj fs]) fs = Some kvs"
    using read_mono(3) [OF "6.IH" [OF b] order_refl] .
  then show ?case using v e by (simp add: Suc_diff_le)
next
  case (8 x xs h)
  obtain v1 h1 where b1: "build x h = (v1, h1)" by (cases "build x h")
  obtain vs2 h2 where b2: "build_list xs h1 = (vs2, h2)" by (cases "build_list xs h1")
  from build_extends(1) [OF b1] obtain e1 where e1: "h1 = h @ e1" by blast
  from build_extends(2) [OF b2] obtain e2 where e2: "h2 = h1 @ e2" by blast
  have r: "vs = v1 # vs2" "h' = h2" using "8.prems" b1 b2 by auto
  have "read_tree (length h2 - length h) (h1 @ e2) v1 = Some x"
    using read_mono(1) [OF "8.IH"(1) [OF b1], of "length h2 - length h" e2] e1 e2 by simp
  moreover have "read_list (length h2 - length h) (h2 @ []) vs2 = Some xs"
    using read_mono(2) [OF "8.IH"(2) [OF b1 [symmetric] b2], of "length h2 - length h" "[]"] e1 e2
    by simp
  ultimately show ?case using r e2 by simp
next
  case (10 k x kvs h)
  obtain v1 h1 where b1: "build x h = (v1, h1)" by (cases "build x h")
  obtain fs2 h2 where b2: "build_fields kvs h1 = (fs2, h2)" by (cases "build_fields kvs h1")
  from build_extends(1) [OF b1] obtain e1 where e1: "h1 = h @ e1" by blast
  from build_extends(3) [OF b2] obtain e2 where e2: "h2 = h1 @ e2" by blast
  have r: "fs = (k, v1) # fs2" "h' = h2" using "10.prems" b1 b2 by auto
  have "read_tree (length h2 - length h) (h1 @ e2) v1 = Some x"
    using read_mono(1) [OF "10.IH"(1) [OF b1], of "length h2 - length h" e2] e1 e2 by simp
  moreover have "read_fields (length h2 - length h) (h2 @ []) fs2 = Some kvs"
    using read_mono(3) [OF "10.IH"(2) [OF b1 [symmetric] b2], of "length h2 - length h" "[]"] e1 e2
    by simp
  ultimately show ?case using r e2 by simp
qed auto






section \<open>The two models of the cache agree\<close>

lemma stringify_read: "stringify h v = Inr doc \<longleftrightarrow> read_tree (Suc (length h)) h v = Some doc"
  by (simp add: stringify_def split: option.splits)

lemma stringify_grow:
  assumes "stringify h v = Inr doc"
  shows "stringify (h @ ext) v = Inr doc"
  using read_mono(1) [of "Suc (length h)" h v doc "Suc (length (h @ ext))" ext] assms
  by (simp add: stringify_read)

lemma stringify_build:
  assumes "build doc h = (v, h')"
  shows "stringify h' v = Inr doc"
proof -
  have "read_tree (length h' - length h) h' v = Some doc" using build_read(1) [OF assms] .
  then have "read_tree (Suc (length (h' @ []))) (h' @ []) v = Some doc"
    by (rule read_mono(1)) simp
  then show ?thesis by (simp add: stringify_read)
qed

lemma stringify_truthy:
  assumes "stringify h v = Inr doc"
  shows "truthy doc = truthy_val v"
  using assms
  by (cases v) (auto simp: stringify_read split: if_splits cell.splits)

lemma getFile_same_archives:
  assumes "jar s = jar s'" and "modid_jars s = modid_jars s'"
  shows "getFile s path = getFile s' path"
  using assms by (simp add: getFile_first del: first_successful.simps)

lemma represents_at:
  "represents h ths thj \<Longrightarrow>
     rel_option (\<lambda>v doc. stringify h v = Inr doc) (cache ths path) (cache thj path)"
  by (simp add: represents_def)

lemma represents_cache:
  assumes "represents h ths thj"
  obtains (none) "cache ths path = None" "cache thj path = None"
  | (some) v doc where "cache ths path = Some v" "cache thj path = Some doc"
      "stringify h v = Inr doc" "truthy doc = truthy_val v"
proof (cases "cache ths path")
  case None
  then have "cache thj path = None" using represents_at [OF assms, of path] by simp
  then show ?thesis using none None by blast
next
  case (Some v)
  then obtain doc where d: "cache thj path = Some doc" "stringify h v = Inr doc"
    using represents_at [OF assms, of path] by (auto simp: option_rel_Some1)
  then show ?thesis using some [OF Some d(1) d(2)] stringify_truthy by blast
qed

lemma represents_grow:
  assumes "represents h ths thj"
  shows "represents (h @ ext) ths thj"
proof -
  have "rel_option (\<lambda>v doc. stringify (h @ ext) v = Inr doc) (cache ths path) (cache thj path)"
    for path
    using represents_at [OF assms, of path] stringify_grow [of h _ _ ext]
    by (auto elim!: option.rel_mono_strong)
  then show ?thesis using assms by (simp add: represents_def)
qed

lemma represents_store:
  assumes r: "represents h ths thj" and s: "stringify h v = Inr doc"
  shows "represents h (ths\<lparr> cache := (cache ths)(path \<mapsto> v) \<rparr>)
                      (thj\<lparr> cache := (cache thj)(path \<mapsto> doc) \<rparr>)"
  using r s by (simp add: represents_def)

text \<open>
  \<open>getParsedJson_s\<close> returns a value that reads as the document which
  \<open>getParsedJson\<close> returns, fails where it fails, and leaves instances that
  represent each other again.
\<close>

lemma getParsedJson_s_refines:
  assumes r: "represents h ths thj"
  shows "\<exists>res ths' h'.
           getParsedJson_s P (ths, h) path = (res, ths', h') \<and>
           represents h' ths' (snd (getParsedJson P thj path)) \<and>
           (case res of
              Inl e \<Rightarrow> fst (getParsedJson P thj path) = Inl e
            | Inr None \<Rightarrow> fst (getParsedJson P thj path) = Inr None
            | Inr (Some v) \<Rightarrow>
                (\<exists>doc. stringify h' v = Inr doc \<and> fst (getParsedJson P thj path) = Inr (Some doc)))"
proof -
  have gf: "getFile ths path = getFile thj path"
    using r by (intro getFile_same_archives) (simp_all add: represents_def)
  show ?thesis
  proof (cases rule: getParsedJson_cases [of thj path P])
    case (hit doc)
    obtain v where
      v: "cache ths path = Some v" "stringify h v = Inr doc" "truthy_val v"
      using hit(1,2) by (cases rule: represents_cache [OF r, of path]) auto
    obtain c h1 where b: "build doc h = (c, h1)" by (cases "build doc h")
    from build_extends(1) [OF b] obtain ext where e: "h1 = h @ ext" by blast
    have "getParsedJson_s P (ths, h) path = (Inr (Some c), ths, h1)"
      using v b by (simp add: getParsedJson_s_def clone_s_def)
    moreover have "represents h1 ths thj" unfolding e using r by (rule represents_grow)
    moreover have "stringify h1 c = Inr doc" using b by (rule stringify_build)
    ultimately show ?thesis using hit(3) by simp
  next
    case absent
    have nt: "\<not> truthy_val_opt (cache ths path)"
      using absent(1) by (cases rule: represents_cache [OF r, of path]) auto
    have "getParsedJson_s P (ths, h) path = (Inr None, ths, h)"
      using nt gf absent(2)
      by (cases "cache ths path") (simp_all add: getParsedJson_s_def)
    then show ?thesis using absent(3) r by simp
  next
    case (unparsable data e)
    have nt: "\<not> truthy_val_opt (cache ths path)"
      using unparsable(1) by (cases rule: represents_cache [OF r, of path]) auto
    have "getParsedJson_s P (ths, h) path = (Inl e, ths, h)"
      using nt gf unparsable(2,3)
      by (cases "cache ths path") (simp_all add: getParsedJson_s_def)
    then show ?thesis using unparsable(4) r by simp
  next
    case (miss data doc)
    have nt: "\<not> truthy_val_opt (cache ths path)"
      using miss(1) by (cases rule: represents_cache [OF r, of path]) auto
    obtain v h1 where b: "build doc h = (v, h1)" by (cases "build doc h")
    from build_extends(1) [OF b] obtain ext where e: "h1 = h @ ext" by blast
    have sv: "stringify h1 v = Inr doc" using b by (rule stringify_build)
    have tv: "truthy doc = truthy_val v" using sv by (rule stringify_truthy)
    let ?ths = "ths\<lparr> cache := (cache ths)(path \<mapsto> v) \<rparr>"
    let ?thj = "thj\<lparr> cache := (cache thj)(path \<mapsto> doc) \<rparr>"
    have r1: "represents h1 ?ths ?thj"
      using represents_store [OF represents_grow [OF r, of ext] sv [unfolded e]] e by simp
    have j: "snd (getParsedJson P thj path) = ?thj" using miss(4) by simp
    show ?thesis
    proof (cases "truthy doc")
      case False
      have "getParsedJson_s P (ths, h) path = (Inr None, ?ths, h1)"
        using nt gf miss(2,3) b False tv
        by (cases "cache ths path") (simp_all add: getParsedJson_s_def)
      then show ?thesis using miss(4) False r1 by simp
    next
      case True
      obtain c h2 where b2: "build doc h1 = (c, h2)" by (cases "build doc h1")
      from build_extends(1) [OF b2] obtain ext2 where e2: "h2 = h1 @ ext2" by blast
      have "getParsedJson_s P (ths, h) path = (Inr (Some c), ?ths, h2)"
        using nt gf miss(2,3) b True tv sv b2
        by (cases "cache ths path") (simp_all add: getParsedJson_s_def clone_s_def)
      moreover have "represents h2 ?ths ?thj" unfolding e2 using r1 by (rule represents_grow)
      moreover have "stringify h2 c = Inr doc" using b2 by (rule stringify_build)
      ultimately show ?thesis using miss(4) True by simp
    qed
  qed
qed

section \<open>Claims about the resolution of a model\<close>

text \<open>
  C1, as the code has it. Let the document of \<open>a\<close> name the parent \<open>b\<close>, the
  document of \<open>b\<close> name the parent \<open>c\<close>, and the document of \<open>c\<close> name no parent
  and carry GUI display data (so the fallback rule does not apply), none of the three
  documents having a field \<^verbatim>\<open>parents\<close> of its own. Then \<^verbatim>\<open>getModel(a)\<close> returns,
  with three nested calls, a descriptor whose \<^verbatim>\<open>parents\<close> is \<open>[c, b]\<close>: every
  level appends its own parent after the recursive call has returned, to the list that
  it has inherited, so the root of the chain comes first and the nearest ancestor last.
\<close>

theorem getModel_chain_lineage:
  assumes a: "model_document P this a = Inr (Some (JObj fa))"
    and ab: "map_of fa ''parent'' = Some (JStr b)" "b \<noteq> []"
    and pa: "map_of fa ''parents'' = None"
    and b: "model_document P this b = Inr (Some (JObj fb))"
    and bc: "map_of fb ''parent'' = Some (JStr c)" "c \<noteq> []"
    and pb: "map_of fb ''parents'' = None"
    and c: "model_document P this c = Inr (Some (JObj fc))"
    and c_end: "map_of fc ''parent'' = None" "\<not> no_gui fc"
    and pc: "map_of fc ''parents'' = None"
  shows "\<exists>res this'. getModel (Suc (Suc (Suc fuel))) P this a = Some (Inr (JObj res), this') \<and>
           map_of res ''parents'' = Some (JArr [JStr c, JStr b])"
proof -
  let ?D = "model_document P this"
  let ?ma = "AList.delete ''parent'' fa" and ?mb = "AList.delete ''parent'' fb"
  have fc: "AList.delete ''parent'' fc = fc" using c_end(1) by (simp add: absent_key)
  \<comment> \<open>the end of the chain\<close>
  define rc where "rc = AList.update ''blockName'' (JStr c) fc"
  have rc: "resolve (Suc fuel) ?D c = Some (Inr (JObj rc))"
    using resolve_final [of ?D c fc fuel] c c_end by (simp add: fc stamp_fields rc_def)
  have prc: "''parents'' \<notin> fst ` set rc"
    using pc by (simp add: rc_def dom_update absent_key)
  \<comment> \<open>the middle\<close>
  have mb: "''parents'' \<notin> fst ` set ?mb"
    using pb by (intro absent_key) simp
  define mergedB where "mergedB = assign_into (assign_into [] rc) ?mb"
  have "map_of mergedB ''parents'' = None"
    unfolding mergedB_def
    by (simp only: map_of_assign_into_other [OF mb] map_of_assign_into_other [OF prc] map_of.simps)
  then have nb: "\<not> truthy_opt (map_of mergedB ''parents'')"
    by simp
  define rb where "rb = AList.update ''blockName'' (JStr b)
                  (AList.update ''parents'' (JArr [JStr c])
                     (AList.update ''parents'' (JArr []) mergedB))"
  have cb: "combine (JObj rc) ?mb c b = Inr (JObj rb)"
    using combine_fresh [of rc ?mb c b] nb unfolding mergedB_def rb_def by simp
  have drb: "distinct (map fst rb)"
    unfolding rb_def mergedB_def by (simp add: distinct_update distinct_assign_into)
  have prb: "map_of rb ''parents'' = Some (JArr [JStr c])"
    unfolding rb_def by (simp add: update_conv')
  have sb: "resolve (Suc (Suc fuel)) ?D b = Some (Inr (JObj rb))"
    by (simp only: resolve_named [of ?D, OF b bc] rc cb option.case sum.case)
  \<comment> \<open>the start\<close>
  have ma: "''parents'' \<notin> fst ` set ?ma"
    using pa by (intro absent_key) simp
  define mergedA where "mergedA = assign_into (assign_into [] rb) ?ma"
  have "map_of (assign_into [] rb) ''parents'' = Some (JArr [JStr c])"
    using prb by (simp add: map_of_assign_into [OF drb] merge_value_def)
  then have pm: "map_of mergedA ''parents'' = Some (JArr [JStr c])"
    unfolding mergedA_def by (simp only: map_of_assign_into_other [OF ma])
  define ra where "ra = AList.update ''blockName'' (JStr a)
                  (AList.update ''parents'' (JArr ([JStr c] @ [JStr b])) mergedA)"
  have ca: "combine (JObj rb) ?ma b a = Inr (JObj ra)"
    using combine_append [of rb ?ma "[JStr c]" b a] pm unfolding mergedA_def ra_def by simp
  have pra: "map_of ra ''parents'' = Some (JArr [JStr c, JStr b])"
    unfolding ra_def by (simp add: update_conv')
  have "resolve (Suc (Suc (Suc fuel))) ?D a = Some (Inr (JObj ra))"
    by (simp only: resolve_named [of ?D, OF a ab] sb ca option.case sum.case)
  then have "outcome (getModel (Suc (Suc (Suc fuel))) P this a) = Some (Inr (JObj ra))"
    using getModel_resolve [of "Suc (Suc (Suc fuel))" P this a] by simp
  then show ?thesis using getModel_outcome_Some pra by blast
qed

text \<open>The chain of the example archive: \<open>block/a\<close>, \<open>block/b\<close>, \<open>block/c\<close>.\<close>

theorem getModel_chain_lineage_witness:
  "\<exists>res this'. getModel 3 example_parser example_instance ''block/a'' = Some (Inr (JObj res), this') \<and>
     map_of res ''parents'' = Some (JArr [JStr ''minecraft:block/c'', JStr ''block/b''])"
proof -
  have a: "model_document example_parser example_instance ''block/a'' =
             Inr (Some (JObj [(''parent'', JStr ''block/b''),
                              (''textures'', JObj [(''all'', JStr ''a.png'')]),
                              (''elements'', JArr [JNum 1])]))"
    by code_simp
  have b: "model_document example_parser example_instance ''block/b'' =
             Inr (Some (JObj [(''parent'', JStr ''minecraft:block/c''),
                              (''textures'', JObj [(''all'', JStr ''b.png''), (''side'', JStr ''s.png'')]),
                              (''elements'', JArr [JNum 2, JNum 3]),
                              (''ambientocclusion'', JBool False)]))"
    by code_simp
  have c: "model_document example_parser example_instance ''minecraft:block/c'' =
             Inr (Some (JObj [(''display'', JObj [(''gui'', JObj [(''scale'', JNum 1)])]),
                              (''shade'', JBool True)]))"
    by code_simp
  have g: "\<not> no_gui [(''display'', JObj [(''gui'', JObj [(''scale'', JNum 1)])]),
                       (''shade'', JBool True)]"
    by (simp add: no_gui_def)
  have "\<exists>res this'. getModel (Suc (Suc (Suc 0))) example_parser example_instance ''block/a''
            = Some (Inr (JObj res), this') \<and>
          map_of res ''parents'' = Some (JArr [JStr ''minecraft:block/c'', JStr ''block/b''])"
    by (rule getModel_chain_lineage [OF a _ _ _ b _ _ _ c _ g]) simp_all
  then show ?thesis by (simp only: numeral_3_eq_3)
qed

text \<open>
  C1 as the specification states it fails on that chain: the lineage of \<open>block/a\<close> is
  not its parent followed by its grandparent.
\<close>

theorem getModel_lineage_is_not_nearest_first:
  "result_field (outcome (getModel 3 example_parser example_instance ''block/a'')) ''parents''
     = Some (JArr [JStr ''minecraft:block/c'', JStr ''block/b'']) \<and>
   result_field (outcome (getModel 3 example_parser example_instance ''block/a'')) ''parents''
     \<noteq> Some (JArr [JStr ''block/b'', JStr ''minecraft:block/c''])"
  by code_simp

text \<open>
  C2. Let the document of \<open>a\<close> be an object whose parent is \<open>b\<close>, named by the
  document or put in by the fallback (\<^verbatim>\<open>minecraft:block/block\<close> for a document
  without a truthy \<^verbatim>\<open>parent\<close> and without \<^verbatim>\<open>display.gui\<close>), and let
  \<^verbatim>\<open>getModel(b)\<close> return the descriptor \<open>inh\<close>. Then \<^verbatim>\<open>getModel(a)\<close> returns a
  descriptor (when \<^verbatim>\<open>push\<close> finds an array or nothing under \<^verbatim>\<open>parents\<close>), and
  at every key \<open>k\<close> other than the three that the resolution itself manages the
  descriptor holds the deep merge of the own field over the inherited one: a scalar or
  an array of \<open>a\<close> replaces the inherited value, a mapping of \<open>a\<close> is merged
  into an inherited mapping and replaces anything else, and a field that \<open>a\<close> does not
  define is the inherited one unchanged. The merge of two mappings follows the same rule
  at each of their keys. Along a chain of any length whose documents have one another as
  parent, named or put in by the fallback, and do not define \<open>k\<close>, the field reaches
  the result as the last model of the chain resolves it: a field that only an ancestor
  defines survives untouched. At the three keys the descriptor does not hold the merge:
  \<^verbatim>\<open>blockName\<close> is the requested name, \<^verbatim>\<open>parent\<close> is not taken from the
  document of \<open>a\<close>, and \<^verbatim>\<open>parents\<close> is an array that ends in \<open>b\<close>, after the
  merged \<^verbatim>\<open>parents\<close> when that is a truthy value.
\<close>

theorem getModel_deep_merge:
  assumes a: "model_document P this a = Inr (Some (JObj fa))"
    and ab: "has_parent fa b"
    and da: "distinct (map fst fa)"
    and inh: "getModel fuel P this b = Some (Inr (JObj inh), this1)"
    and di: "distinct (map fst inh)"
    and k: "k \<noteq> ''parent''" "k \<noteq> ''parents''" "k \<noteq> ''blockName''"
  shows "(\<forall>res this2. getModel (Suc fuel) P this a = Some (Inr (JObj res), this2) \<longrightarrow>
            map_of res k =
              (case map_of fa k of
                 None \<Rightarrow> map_of inh k
               | Some v \<Rightarrow> Some (merge_value (map_of inh k) v)) \<and>
            (\<forall>v. map_of fa k = Some v \<and> (\<forall>sf. v \<noteq> JObj sf) \<longrightarrow> map_of res k = Some v) \<and>
            (\<forall>sf tf. map_of fa k = Some (JObj sf) \<and> map_of inh k = Some (JObj tf) \<longrightarrow>
                     map_of res k = Some (JObj (assign_into tf sf))) \<and>
            (\<forall>sf. map_of fa k = Some (JObj sf) \<and> (\<forall>tf. map_of inh k \<noteq> Some (JObj tf)) \<longrightarrow>
                  map_of res k = Some (JObj sf)) \<and>
            (map_of fa k = None \<longrightarrow> map_of res k = map_of inh k)) \<and>
         (\<forall>tf sf k2. distinct (map fst sf) \<longrightarrow>
            map_of (assign_into tf sf) k2 =
              (case map_of sf k2 of
                 None \<Rightarrow> map_of tf k2
               | Some v \<Rightarrow> Some (merge_value (map_of tf k2) v))) \<and>
         (map_of fa ''parents'' = None \<and>
          (\<not> truthy_opt (map_of inh ''parents'') \<or> (\<exists>ps. map_of inh ''parents'' = Some (JArr ps)))
            \<longrightarrow> (\<exists>res this2. getModel (Suc fuel) P this a = Some (Inr (JObj res), this2))) \<and>
         (\<forall>n chain fuel' res s.
            passes_on (model_document P this) k n chain \<and>
            getModel (length chain + fuel') P this n = Some (Inr (JObj res), s) \<longrightarrow>
            (\<exists>anc s'. getModel fuel' P this (last (n # chain)) = Some (Inr (JObj anc), s') \<and>
                       (distinct (map fst anc) \<longrightarrow> map_of res k = map_of anc k))) \<and>
         (\<forall>res this2. getModel (Suc fuel) P this a = Some (Inr (JObj res), this2) \<longrightarrow>
            map_of res ''blockName'' = Some (JStr a) \<and>
            map_of res ''parent'' = map_of inh ''parent'' \<and>
            (\<exists>ps. map_of res ''parents'' = Some (JArr (ps @ [JStr b])) \<and>
                  (if truthy_opt (case map_of fa ''parents'' of
                                    None \<Rightarrow> map_of inh ''parents''
                                  | Some v \<Rightarrow> Some (merge_value (map_of inh ''parents'') v))
                   then (case map_of fa ''parents'' of
                           None \<Rightarrow> map_of inh ''parents''
                         | Some v \<Rightarrow> Some (merge_value (map_of inh ''parents'') v)) = Some (JArr ps)
                   else ps = [])))"
proof (intro conjI allI impI)
  let ?D = "model_document P this"
  let ?ma = "AList.delete ''parent'' fa"
  let ?m = "assign_into (assign_into [] inh) ?ma"
  have ri: "resolve fuel ?D b = Some (Inr (JObj inh))"
    using inh getModel_resolve [of fuel P this b] by (simp add: outcome_def)
  have step: "resolve (Suc fuel) ?D a = Some (combine (JObj inh) ?ma b a)"
    by (simp only: resolve_parent [of ?D, OF a ab] ri option.case sum.case)
  have dma: "distinct (map fst ?ma)" using da by (rule distinct_delete)
  have base: "map_of (assign_into [] inh) key = map_of inh key" for key
    by (simp add: map_of_assign_into [OF di] merge_value_def split: option.splits)
  have merged: "map_of ?m key =
          (case map_of ?ma key of
             None \<Rightarrow> map_of inh key
           | Some v \<Rightarrow> Some (merge_value (map_of inh key) v))" for key
    by (simp only: map_of_assign_into [OF dma] base)
  have mk: "map_of ?ma k = map_of fa k" using k(1) by simp
  {
    fix res this2
    assume "getModel (Suc fuel) P this a = Some (Inr (JObj res), this2)"
    then have "resolve (Suc fuel) ?D a = Some (Inr (JObj res))"
      using getModel_resolve [of "Suc fuel" P this a] by (simp add: outcome_def)
    then have c: "combine (JObj inh) ?ma b a = Inr (JObj res)" using step by simp
    from combine_result [OF c] have "map_of res k = map_of ?m k" using k by auto
    then show eq: "map_of res k =
              (case map_of fa k of
                 None \<Rightarrow> map_of inh k
               | Some v \<Rightarrow> Some (merge_value (map_of inh k) v))"
      by (simp only: merged mk)
    {
      fix v assume "map_of fa k = Some v \<and> (\<forall>sf. v \<noteq> JObj sf)"
      then show "map_of res k = Some v"
        unfolding eq by (cases v) (auto simp: merge_value_def split: option.splits json.splits)
    }
    {
      fix sf tf assume "map_of fa k = Some (JObj sf) \<and> map_of inh k = Some (JObj tf)"
      then show "map_of res k = Some (JObj (assign_into tf sf))"
        unfolding eq by (simp add: merge_value_def)
    }
    {
      fix sf assume "map_of fa k = Some (JObj sf) \<and> (\<forall>tf. map_of inh k \<noteq> Some (JObj tf))"
      then show "map_of res k = Some (JObj sf)"
        unfolding eq by (auto simp: merge_value_def split: option.splits json.splits)
    }
    {
      assume "map_of fa k = None"
      then show "map_of res k = map_of inh k" unfolding eq by simp
    }
  }
  {
    fix tf sf :: "(string \<times> json) list" and k2
    assume "distinct (map fst sf)"
    then show "map_of (assign_into tf sf) k2 =
              (case map_of sf k2 of
                 None \<Rightarrow> map_of tf k2
               | Some v \<Rightarrow> Some (merge_value (map_of tf k2) v))"
      by (rule map_of_assign_into)
  }
  {
    assume p: "map_of fa ''parents'' = None \<and>
          (\<not> truthy_opt (map_of inh ''parents'') \<or> (\<exists>ps. map_of inh ''parents'' = Some (JArr ps)))"
    have "map_of ?ma ''parents'' = None" using p by simp
    then have "map_of ?m ''parents'' = map_of inh ''parents''"
      by (simp only: merged option.case)
    then obtain result where c: "combine (JObj inh) ?ma b a = Inr result"
      using combine_succeeds [of inh ?ma b a] p by auto
    from combine_result [OF c] obtain res where "result = JObj res" by blast
    then have "outcome (getModel (Suc fuel) P this a) = Some (Inr (JObj res))"
      using getModel_resolve [of "Suc fuel" P this a] step c by simp
    then show "\<exists>res this2. getModel (Suc fuel) P this a = Some (Inr (JObj res), this2)"
      using getModel_outcome_Some by blast
  }
  {
    fix n chain fuel' res s
    assume "passes_on (model_document P this) k n chain \<and>
            getModel (length chain + fuel') P this n = Some (Inr (JObj res), s)"
    then show "\<exists>anc s'. getModel fuel' P this (last (n # chain)) = Some (Inr (JObj anc), s') \<and>
                       (distinct (map fst anc) \<longrightarrow> map_of res k = map_of anc k)"
      using getModel_field_passes [of P this k n chain fuel' res s] k by blast
  }
  {
    fix res this2
    assume "getModel (Suc fuel) P this a = Some (Inr (JObj res), this2)"
    then have "resolve (Suc fuel) ?D a = Some (Inr (JObj res))"
      using getModel_resolve [of "Suc fuel" P this a] by (simp add: outcome_def)
    then have c: "combine (JObj inh) ?ma b a = Inr (JObj res)" using step by simp
    from combine_managed [OF c] obtain ps where
      r: "map_of res ''blockName'' = Some (JStr a)"
         "map_of res ''parents'' = Some (JArr (ps @ [JStr b]))"
         "if truthy_opt (map_of ?m ''parents'') then map_of ?m ''parents'' = Some (JArr ps)
          else ps = []"
         "map_of res ''parent'' = map_of ?m ''parent''"
      by blast
    show "map_of res ''blockName'' = Some (JStr a)" by (rule r(1))
    have "map_of ?ma ''parent'' = None" by (simp add: delete_conv')
    then have "map_of ?m ''parent'' = map_of inh ''parent''"
      by (simp only: merged option.case)
    then show "map_of res ''parent'' = map_of inh ''parent''" using r(4) by simp
    have mp: "map_of ?ma ''parents'' = map_of fa ''parents''" by simp
    have "map_of ?m ''parents'' =
            (case map_of fa ''parents'' of
               None \<Rightarrow> map_of inh ''parents''
             | Some v \<Rightarrow> Some (merge_value (map_of inh ''parents'') v))"
      by (simp only: merged mp)
    then have mm: "(case map_of fa ''parents'' of
               None \<Rightarrow> map_of inh ''parents''
             | Some v \<Rightarrow> Some (merge_value (map_of inh ''parents'') v)) = map_of ?m ''parents''"
      by (rule sym)
    show "\<exists>ps. map_of res ''parents'' = Some (JArr (ps @ [JStr b])) \<and>
                  (if truthy_opt (case map_of fa ''parents'' of
                                    None \<Rightarrow> map_of inh ''parents''
                                  | Some v \<Rightarrow> Some (merge_value (map_of inh ''parents'') v))
                   then (case map_of fa ''parents'' of
                           None \<Rightarrow> map_of inh ''parents''
                         | Some v \<Rightarrow> Some (merge_value (map_of inh ''parents'') v)) = Some (JArr ps)
                   else ps = [])"
      unfolding mm using r(2,3) by blast
  }
qed


text \<open>
  Two models of the example archive. \<open>block/a\<close> names its parent: it overrides one
  texture and the elements of \<open>block/b\<close>; the other texture and
  \<^verbatim>\<open>ambientocclusion\<close> come from \<open>block/b\<close>, and \<^verbatim>\<open>shade\<close>, which only
  \<open>block/c\<close> defines, comes through both levels. \<open>plain\<close> names no parent and has
  no GUI display data: it keeps its textures and takes \<^verbatim>\<open>display\<close> from the root
  model that the fallback puts in.
\<close>

theorem getModel_deep_merge_witness:
  "(\<exists>res this2. getModel 3 example_parser example_instance ''block/a'' = Some (Inr (JObj res), this2) \<and>
     map_of res ''textures'' = Some (JObj [(''all'', JStr ''a.png''), (''side'', JStr ''s.png'')]) \<and>
     map_of res ''elements'' = Some (JArr [JNum 1]) \<and>
     map_of res ''ambientocclusion'' = Some (JBool False) \<and>
     map_of res ''shade'' = Some (JBool True) \<and>
     map_of res ''blockName'' = Some (JStr ''block/a'')) \<and>
   (\<exists>res this2. getModel 2 example_parser example_instance ''plain'' = Some (Inr (JObj res), this2) \<and>
     map_of res ''textures'' = Some (JObj [(''all'', JStr ''p.png'')]) \<and>
     map_of res ''display'' = Some (JObj [(''gui'', JObj [(''scale'', JNum 2)])]))"
proof (rule conjI)
  let ?fa = "[(''parent'', JStr ''block/b''),
              (''textures'', JObj [(''all'', JStr ''a.png'')]),
              (''elements'', JArr [JNum 1])]"
  let ?inh = "[(''display'', JObj [(''gui'', JObj [(''scale'', JNum 1)])]),
               (''shade'', JBool True), (''blockName'', JStr ''block/b''),
               (''textures'', JObj [(''all'', JStr ''b.png''), (''side'', JStr ''s.png'')]),
               (''elements'', JArr [JNum 2, JNum 3]),
               (''ambientocclusion'', JBool False),
               (''parents'', JArr [JStr ''minecraft:block/c''])]"
  have a: "model_document example_parser example_instance ''block/a'' = Inr (Some (JObj ?fa))"
    by code_simp
  have ab: "has_parent ?fa ''block/b''"
    by (simp add: has_parent_def)
  have da: "distinct (map fst ?fa)" by simp
  have di: "distinct (map fst ?inh)" by simp
  have "outcome (getModel (Suc (Suc 0)) example_parser example_instance ''block/b'')
          = Some (Inr (JObj ?inh))"
    by code_simp
  then obtain this1 where
    inh: "getModel (Suc (Suc 0)) example_parser example_instance ''block/b''
            = Some (Inr (JObj ?inh), this1)"
    using getModel_outcome_Some by blast
  note m = getModel_deep_merge [OF a ab da inh di]
  have kt: "''textures'' \<noteq> ''parent''" "''textures'' \<noteq> ''parents''" "''textures'' \<noteq> ''blockName''"
    by simp_all
  have p: "map_of ?fa ''parents'' = None \<and>
          (\<not> truthy_opt (map_of ?inh ''parents'') \<or> (\<exists>ps. map_of ?inh ''parents'' = Some (JArr ps)))"
    by simp
  note exists = m [OF kt, THEN conjunct2, THEN conjunct2, THEN conjunct1, rule_format]
  from exists [OF p] obtain res this2 where
    g: "getModel (Suc (Suc (Suc 0))) example_parser example_instance ''block/a''
          = Some (Inr (JObj res), this2)"
    by blast
  note at = m [THEN conjunct1, rule_format, OF _ _ _ g, THEN conjunct1]
  have "map_of res ''textures'' = Some (JObj [(''all'', JStr ''a.png''), (''side'', JStr ''s.png'')])"
    using at [of "''textures''"] by (simp add: merge_value_def)
  moreover have "map_of res ''elements'' = Some (JArr [JNum 1])"
    using at [of "''elements''"] by (simp add: merge_value_def)
  moreover have "map_of res ''ambientocclusion'' = Some (JBool False)"
    using at [of "''ambientocclusion''"] by simp
  moreover have "map_of res ''shade'' = Some (JBool True)"
  proof -
    let ?chain = "[''block/b'', ''minecraft:block/c'']"
    have p: "passes_on (model_document example_parser example_instance) ''shade''
               ''block/a'' ?chain"
      by code_simp
    have g': "getModel (length ?chain + Suc 0) example_parser example_instance ''block/a''
                = Some (Inr (JObj res), this2)"
      using g by (simp del: getModel.simps)
    have k: "''shade'' \<noteq> ''parent''" "''shade'' \<noteq> ''parents''" "''shade'' \<noteq> ''blockName''"
      by simp_all
    note along = m [OF k, THEN conjunct2, THEN conjunct2, THEN conjunct2, THEN conjunct1,
                    rule_format]
    from along [OF conjI [OF p g']] obtain anc s' where
      anc: "getModel (Suc 0) example_parser example_instance (last (''block/a'' # ?chain))
              = Some (Inr (JObj anc), s')"
        "distinct (map fst anc) \<longrightarrow> map_of res ''shade'' = map_of anc ''shade''"
      by blast
    have "outcome (getModel (Suc 0) example_parser example_instance ''minecraft:block/c'')
            = Some (Inr (JObj [(''display'', JObj [(''gui'', JObj [(''scale'', JNum 1)])]),
                               (''shade'', JBool True),
                               (''blockName'', JStr ''minecraft:block/c'')]))"
      by code_simp
    then have "anc = [(''display'', JObj [(''gui'', JObj [(''scale'', JNum 1)])]),
                      (''shade'', JBool True),
                      (''blockName'', JStr ''minecraft:block/c'')]"
      using anc(1) by (simp add: outcome_def del: getModel.simps)
    then show ?thesis using anc(2) by simp
  qed
  moreover have "map_of res ''blockName'' = Some (JStr ''block/a'')"
    using m [OF kt, THEN conjunct2, THEN conjunct2, THEN conjunct2, THEN conjunct2,
             rule_format, OF g, THEN conjunct1] .
  ultimately show "\<exists>res this2. getModel 3 example_parser example_instance ''block/a''
        = Some (Inr (JObj res), this2) \<and>
     map_of res ''textures'' = Some (JObj [(''all'', JStr ''a.png''), (''side'', JStr ''s.png'')]) \<and>
     map_of res ''elements'' = Some (JArr [JNum 1]) \<and>
     map_of res ''ambientocclusion'' = Some (JBool False) \<and>
     map_of res ''shade'' = Some (JBool True) \<and>
     map_of res ''blockName'' = Some (JStr ''block/a'')"
    using g by (simp only: numeral_3_eq_3) blast
next
  let ?fp = "[(''textures'', JObj [(''all'', JStr ''p.png'')])]"
  let ?root = "[(''display'', JObj [(''gui'', JObj [(''scale'', JNum 2)])]),
                (''blockName'', JStr ''minecraft:block/block'')]"
  have a: "model_document example_parser example_instance ''plain'' = Inr (Some (JObj ?fp))"
    by code_simp
  have ab: "has_parent ?fp ''minecraft:block/block''"
    by (simp add: has_parent_def no_gui_def)
  have da: "distinct (map fst ?fp)" by simp
  have di: "distinct (map fst ?root)" by simp
  have "outcome (getModel (Suc 0) example_parser example_instance ''minecraft:block/block'')
          = Some (Inr (JObj ?root))"
    by code_simp
  then obtain this1 where
    inh: "getModel (Suc 0) example_parser example_instance ''minecraft:block/block''
            = Some (Inr (JObj ?root), this1)"
    using getModel_outcome_Some by blast
  note m = getModel_deep_merge [OF a ab da inh di]
  have kt: "''textures'' \<noteq> ''parent''" "''textures'' \<noteq> ''parents''" "''textures'' \<noteq> ''blockName''"
    by simp_all
  have p: "map_of ?fp ''parents'' = None \<and>
          (\<not> truthy_opt (map_of ?root ''parents'') \<or> (\<exists>ps. map_of ?root ''parents'' = Some (JArr ps)))"
    by simp
  note exists = m [OF kt, THEN conjunct2, THEN conjunct2, THEN conjunct1, rule_format]
  from exists [OF p] obtain res this2 where
    g: "getModel (Suc (Suc 0)) example_parser example_instance ''plain''
          = Some (Inr (JObj res), this2)"
    by blast
  note at = m [THEN conjunct1, rule_format, OF _ _ _ g, THEN conjunct1]
  have "map_of res ''textures'' = Some (JObj [(''all'', JStr ''p.png'')])"
    using at [of "''textures''"] by (simp add: merge_value_def)
  moreover have "map_of res ''display'' = Some (JObj [(''gui'', JObj [(''scale'', JNum 2)])])"
    using at [of "''display''"] by simp
  ultimately show "\<exists>res this2. getModel 2 example_parser example_instance ''plain''
        = Some (Inr (JObj res), this2) \<and>
     map_of res ''textures'' = Some (JObj [(''all'', JStr ''p.png'')]) \<and>
     map_of res ''display'' = Some (JObj [(''gui'', JObj [(''scale'', JNum 2)])])"
    using g by (simp only: numeral_2_eq_2) blast
qed

text \<open>
  C2 as the specification states it fails at the keys that the resolution manages. The
  document of \<open>block/named\<close> has a \<^verbatim>\<open>blockName\<close> and a \<^verbatim>\<open>parents\<close> of its
  own, a scalar and an array: the descriptor holds neither of them.
\<close>

theorem getModel_overwrites_own_blockName:
  "model_document example_parser example_instance ''block/named''
     = Inr (Some (JObj [(''parent'', JStr ''minecraft:block/c''),
                        (''blockName'', JStr ''custom''),
                        (''parents'', JArr [JStr ''zz''])])) \<and>
   result_field (outcome (getModel 2 example_parser example_instance ''block/named'')) ''blockName''
     = Some (JStr ''block/named'') \<and>
   result_field (outcome (getModel 2 example_parser example_instance ''block/named'')) ''parents''
     = Some (JArr [JStr ''zz'', JStr ''minecraft:block/c''])"
  by code_simp

text \<open>
  C3. Let the document of a model be an object that declares no \<^verbatim>\<open>parent\<close> and has no
  GUI display data. Then \<^verbatim>\<open>getModel\<close> resolves \<open>minecraft:block/block\<close> as its
  parent: whenever it returns a descriptor, the \<^verbatim>\<open>parents\<close> of the descriptor is an
  array that ends in \<open>minecraft:block/block\<close>, so it has at least one element and
  contains the root model. And it does return one, with one nested call more, whenever
  the root model resolves to a descriptor, provided that \<^verbatim>\<open>push\<close> finds an array or
  nothing under \<^verbatim>\<open>parents\<close> (neither the document nor the resolved root carries a
  \<^verbatim>\<open>parents\<close> of its own).
\<close>

theorem getModel_fallback_parent:
  assumes d: "model_document P this n = Inr (Some (JObj f))"
    and np: "map_of f ''parent'' = None"
    and ng: "no_gui f"
  shows "(\<forall>fuel res this'. getModel fuel P this n = Some (Inr res, this') \<longrightarrow>
            (\<exists>ps. get_prop res ''parents'' = Some (JArr ps) \<and> 1 \<le> length ps \<and>
                   last ps = JStr ''minecraft:block/block'' \<and>
                   JStr ''minecraft:block/block'' \<in> set ps)) \<and>
         (\<forall>fuel inh this1.
            getModel fuel P this ''minecraft:block/block'' = Some (Inr (JObj inh), this1) \<and>
            map_of f ''parents'' = None \<and> map_of inh ''parents'' = None \<longrightarrow>
            (\<exists>res this'. getModel (Suc fuel) P this n = Some (Inr res, this')))"
proof (intro conjI allI impI)
  let ?D = "model_document P this"
  let ?root = "''minecraft:block/block''"
  have own: "AList.delete ''parent'' f = f" using np by (simp add: absent_key)
  have np': "\<not> truthy_opt (map_of f ''parent'')" using np by simp
  have ng': "no_gui (AList.delete ''parent'' f)" using ng own by simp
  have step: "resolve (Suc k) ?D n =
           (case resolve k ?D ?root of
              None \<Rightarrow> None
            | Some (Inl e) \<Rightarrow> Some (Inl e)
            | Some (Inr inherited) \<Rightarrow> Some (combine inherited f ?root n))" for k
    by (simp only: resolve_fallback [of ?D, OF d np' ng'] own)
  {
    fix fuel res this'
    assume g: "getModel fuel P this n = Some (Inr res, this')"
    then have r: "resolve fuel ?D n = Some (Inr res)"
      using getModel_resolve [of fuel P this n] by (simp add: outcome_def)
    then obtain k where k: "fuel = Suc k" by (cases fuel) auto
    from r obtain inherited where i: "resolve k ?D ?root = Some (Inr inherited)"
      and c: "combine inherited f ?root n = Inr res"
      unfolding k step by (auto split: option.splits sum.splits)
    from resolve_object [OF i] obtain inh where inh: "inherited = JObj inh" by blast
    from combine_result [OF c [unfolded inh]] obtain fields ps where
      "res = JObj fields" "map_of fields ''parents'' = Some (JArr (ps @ [JStr ?root]))"
      by blast
    then have "get_prop res ''parents'' = Some (JArr (ps @ [JStr ?root])) \<and>
               1 \<le> length (ps @ [JStr ?root]) \<and> last (ps @ [JStr ?root]) = JStr ?root \<and>
               JStr ?root \<in> set (ps @ [JStr ?root])"
      by simp
    then show "\<exists>ps. get_prop res ''parents'' = Some (JArr ps) \<and> 1 \<le> length ps \<and>
                 last ps = JStr ?root \<and> JStr ?root \<in> set ps"
      by blast
  }
  {
    fix fuel inh this1
    assume a: "getModel fuel P this ?root = Some (Inr (JObj inh), this1) \<and>
               map_of f ''parents'' = None \<and> map_of inh ''parents'' = None"
    then have i: "resolve fuel ?D ?root = Some (Inr (JObj inh))"
      using getModel_resolve [of fuel P this ?root] by (simp add: outcome_def)
    have "map_of (assign_into (assign_into [] inh) f) ''parents'' = None"
      using a by (simp add: map_of_assign_into_other absent_key)
    then obtain result where "combine (JObj inh) f ?root n = Inr result"
      using combine_succeeds [of inh f ?root n] by auto
    then have "resolve (Suc fuel) ?D n = Some (Inr result)"
      by (simp only: step i option.case sum.case)
    then have "outcome (getModel (Suc fuel) P this n) = Some (Inr result)"
      using getModel_resolve [of "Suc fuel" P this n] by simp
    then show "\<exists>res this'. getModel (Suc fuel) P this n = Some (Inr res, this')"
      using getModel_outcome_Some by blast
  }
qed

text \<open>
  The model \<open>plain\<close> of the example archive: its document has textures only, the root
  model of the archive has GUI display data.
\<close>

theorem getModel_fallback_parent_witness:
  "\<exists>res this' ps. getModel 2 example_parser example_instance ''plain'' = Some (Inr res, this') \<and>
     get_prop res ''parents'' = Some (JArr ps) \<and> 1 \<le> length ps \<and>
     JStr ''minecraft:block/block'' \<in> set ps"
proof -
  have d: "model_document example_parser example_instance ''plain'' =
             Inr (Some (JObj [(''textures'', JObj [(''all'', JStr ''p.png'')])]))"
    by code_simp
  have np: "map_of [(''textures'', JObj [(''all'', JStr ''p.png'')])] ''parent'' = None"
    by simp
  have ng: "no_gui [(''textures'', JObj [(''all'', JStr ''p.png'')])]"
    by (simp add: no_gui_def)
  have root: "\<exists>this1. getModel (Suc 0) example_parser example_instance ''minecraft:block/block'' =
          Some (Inr (JObj [(''display'', JObj [(''gui'', JObj [(''scale'', JNum 2)])]),
                           (''blockName'', JStr ''minecraft:block/block'')]), this1)"
  proof -
    have "outcome (getModel (Suc 0) example_parser example_instance ''minecraft:block/block'') =
          Some (Inr (JObj [(''display'', JObj [(''gui'', JObj [(''scale'', JNum 2)])]),
                           (''blockName'', JStr ''minecraft:block/block'')]))"
      by code_simp
    then show ?thesis by (rule getModel_outcome_Some)
  qed
  then obtain this1 where
    r: "getModel (Suc 0) example_parser example_instance ''minecraft:block/block'' =
          Some (Inr (JObj [(''display'', JObj [(''gui'', JObj [(''scale'', JNum 2)])]),
                           (''blockName'', JStr ''minecraft:block/block'')]), this1)"
    by blast
  note fb = getModel_fallback_parent [OF d np ng]
  from fb r obtain res this' where
    g: "getModel (Suc (Suc 0)) example_parser example_instance ''plain'' = Some (Inr res, this')"
    by fastforce
  with fb obtain ps where "get_prop res ''parents'' = Some (JArr ps)" "1 \<le> length ps"
      "JStr ''minecraft:block/block'' \<in> set ps"
    by blast
  with g show ?thesis by (auto simp: numeral_2_eq_2)
qed

section \<open>Claims about the lookup across archives\<close>




section \<open>Claims about identifiers\<close>

text \<open>
  C5, as the code has it. A name without a colon gets the namespace \<open>minecraft\<close>,
  whatever default namespace the instance was constructed with. A name with a colon
  gets the part before the first colon as its namespace and the part between the first
  colon and the second one (all that follows the first when there is no second) as its
  local id.
\<close>

theorem id_of_resolution:
  "(CHR '':'' \<notin> set name \<longrightarrow>
      id_of this name = \<lparr> namespace = ''minecraft'', local_id = name \<rparr>) \<and>
   (CHR '':'' \<notin> set ns \<longrightarrow>
      id_of this (ns @ CHR '':'' # rest) =
        \<lparr> namespace = ns, local_id = takeWhile (\<lambda>x. x \<noteq> CHR '':'') rest \<rparr>)"
proof (intro conjI impI)
  assume "CHR '':'' \<notin> set name"
  then show "id_of this name = \<lparr> namespace = ''minecraft'', local_id = name \<rparr>"
    by (simp add: id_of_def)
next
  assume ns: "CHR '':'' \<notin> set ns"
  have "split CHR '':'' (ns @ CHR '':'' # rest) = ns # split CHR '':'' rest"
    using ns by (rule split_prefixed)
  moreover have "split CHR '':'' rest = takeWhile (\<lambda>x. x \<noteq> CHR '':'') rest #
     (case dropWhile (\<lambda>x. x \<noteq> CHR '':'') rest of [] \<Rightarrow> [] | _ # r \<Rightarrow> split CHR '':'' r)"
    by (rule split_first)
  ultimately show "id_of this (ns @ CHR '':'' # rest) =
        \<lparr> namespace = ns, local_id = takeWhile (\<lambda>x. x \<noteq> CHR '':'') rest \<rparr>"
    by (simp add: id_of_def)
qed

theorem id_of_resolution_witness:
  "id_of (mymod_instance :: json Minecraft) ''stone''
     = \<lparr> namespace = ''minecraft'', local_id = ''stone'' \<rparr> \<and>
   id_of (mymod_instance :: json Minecraft) ''create:block/cog''
     = \<lparr> namespace = ''create'', local_id = ''block/cog'' \<rparr>"
  using id_of_resolution [of "''stone''" "mymod_instance :: json Minecraft" "''create''" "''block/cog''"]
  by simp

text \<open>
  C5 as the specification states it fails: an instance constructed with the default
  namespace \<open>mymod\<close> resolves the name \<open>stone\<close> to the namespace \<open>minecraft\<close>.
\<close>

theorem id_of_ignores_default_namespace:
  "defaultNamespace (mymod_instance :: json Minecraft) = ''mymod'' \<and>
   namespace (id_of (mymod_instance :: json Minecraft) ''stone'') = ''minecraft'' \<and>
   namespace (id_of (mymod_instance :: json Minecraft) ''stone'')
     \<noteq> defaultNamespace (mymod_instance :: json Minecraft)"
  by (simp add: mymod_instance_def Minecraft_open_def id_of_def)

section \<open>Claims about files that no archive holds\<close>

text \<open>
  C6, what the code does where the claim expects an error that names the path. When no
  source holds the file of a model (and nothing is cached for its path),
  \<^verbatim>\<open>getModelFile\<close> is fulfilled with \<^verbatim>\<open>undefined\<close> and leaves the instance as it
  was; no error is raised and no path is named. \<^verbatim>\<open>getModel\<close> then fails on the
  destructuring of \<^verbatim>\<open>undefined\<close> with a \<^verbatim>\<open>TypeError\<close>.
\<close>

theorem getModelFile_missing_returns_undefined:
  assumes "\<not> truthy_opt (cache this (model_path (id_of this name)))"
    and "\<forall>j \<in> set (jar this # map snd (modid_jars this)).
             \<forall>content. read j (model_path (id_of this name)) \<noteq> Inr (Some content)"
  shows "getModelFile P this (Some name) = (Inr None, this) \<and>
         getModel (Suc fuel) P this name = Some (Inl TypeError, this)"
proof -
  have "first_successful (jar this # map snd (modid_jars this)) (model_path (id_of this name)) = None"
    using assms(2) by (simp only: first_successful_None)
  then have "getFile this (model_path (id_of this name)) = Inr None"
    by (simp add: getFile_first del: first_successful.simps)
  with assms(1) have f: "getModelFile P this (Some name) = (Inr None, this)"
    by (simp add: getModelFile_def getParsedJson_absent)
  then show ?thesis by (simp add: destructure_def)
qed

text \<open>The failing input: the model \<open>stone\<close>, of which the example archive has no file.\<close>

theorem getModelFile_missing_returns_undefined_witness:
  "getModelFile example_parser example_instance (Some ''stone'') = (Inr None, example_instance) \<and>
   getModel (Suc 0) example_parser example_instance ''stone'' = Some (Inl TypeError, example_instance)"
proof -
  have 1: "\<not> truthy_opt (cache (example_instance :: json Minecraft)
                 (model_path (id_of (example_instance :: json Minecraft) ''stone'')))"
    by (simp add: example_instance_def Minecraft_open_def)
  have 2: "\<forall>j \<in> set (jar (example_instance :: json Minecraft)
                        # map snd (modid_jars (example_instance :: json Minecraft))).
             \<forall>content. read j (model_path (id_of (example_instance :: json Minecraft) ''stone''))
                          \<noteq> Inr (Some content)"
    by (simp add: example_instance_def Minecraft_open_def jar_of_files_def example_files_def
          model_path_def id_of_def)
  from getModelFile_missing_returns_undefined [OF 1 2] show ?thesis .
qed

text \<open>
  C7, what the code does where the claim expects an error that names the path. When no
  source holds the file of a texture, \<^verbatim>\<open>getTextureFile\<close> is fulfilled with
  \<^verbatim>\<open>null\<close>: \<^verbatim>\<open>getFile\<close> never rejects, so the \<^verbatim>\<open>catch\<close> that would raise
  \<^verbatim>\<open>Unable to find texture file\<close> is never entered.
\<close>

theorem getTextureFile_missing_returns_null:
  assumes "\<forall>j \<in> set (jar this # map snd (modid_jars this)).
             \<forall>content. read j (texture_path (id_of this name)) \<noteq> Inr (Some content)"
  shows "getTextureFile this (Some name) = Inr None"
proof -
  have "first_successful (jar this # map snd (modid_jars this)) (texture_path (id_of this name)) = None"
    using assms by (simp only: first_successful_None)
  then show ?thesis
    by (simp add: getTextureFile_def getFile_first del: first_successful.simps)
qed

text \<open>The failing input: the texture \<open>stone\<close>, of which the example archive has no file.\<close>

theorem getTextureFile_missing_returns_null_witness:
  "getTextureFile (example_instance :: json Minecraft) (Some ''stone'') = Inr None"
proof -
  have "\<forall>j \<in> set (jar (example_instance :: json Minecraft)
                     # map snd (modid_jars (example_instance :: json Minecraft))).
          \<forall>content. read j (texture_path (id_of (example_instance :: json Minecraft) ''stone''))
                       \<noteq> Inr (Some content)"
    by (simp add: example_instance_def Minecraft_open_def jar_of_files_def example_files_def
          texture_path_def id_of_def)
  then show ?thesis by (rule getTextureFile_missing_returns_null)
qed

section \<open>Claims about the copies that the cache hands out\<close>



section \<open>Claims about the list of all blocks\<close>

text \<open>
  C9. Let \<^verbatim>\<open>getBlockStates\<close> have returned the states of the namespace, and let the
  resolution of each of them settle. Then \<^verbatim>\<open>getBlockList\<close> is fulfilled, whatever
  the single resolutions do: the outcome it collects for every state is the outcome that
  \<^verbatim>\<open>getModelFromBlockState\<close> has for that state on its own, a rejected one (a broken
  chain, a model file that is missing) contributes nothing and takes nothing away, and
  the model of every state whose resolution is fulfilled is in the list.
\<close>

theorem getBlockList_isolates_failures:
  assumes states: "getBlockStates P this ns = (Inr states, this1)"
    and settle: "\<forall>st \<in> set states. getModelFromBlockState fuel P this1 st \<noteq> None"
  shows "\<exists>outcomes this2.
           getBlockList fuel P this ns = Some (Inr (fulfilled_values outcomes), this2) \<and>
           map Some outcomes = map (\<lambda>st. outcome (getModelFromBlockState fuel P this1 st)) states \<and>
           (\<forall>st m this'. st \<in> set states \<and>
                getModelFromBlockState fuel P this1 st = Some (Inr (Some m), this') \<and> truthy m
              \<longrightarrow> m \<in> set (fulfilled_values outcomes))"
proof -
  from settle_all_outcomes [OF same_docs_refl settle] obtain outcomes this2 where
    s: "settle_all fuel P this1 states = Some (outcomes, this2)"
    and o: "map Some outcomes = map (\<lambda>st. outcome (getModelFromBlockState fuel P this1 st)) states"
    by blast
  have g: "getBlockList fuel P this ns = Some (Inr (fulfilled_values outcomes), this2)"
    by (simp add: getBlockList_def states s)
  have "m \<in> set (fulfilled_values outcomes)"
    if "st \<in> set states \<and> getModelFromBlockState fuel P this1 st = Some (Inr (Some m), this') \<and> truthy m"
    for st m this'
  proof -
    have "outcome (getModelFromBlockState fuel P this1 st) = Some (Inr (Some m))"
      using that by (simp add: outcome_def)
    then have "Some (Inr (Some m)) \<in> set (map Some outcomes)"
      using that o by (metis (mono_tags, lifting) image_eqI list.set_map)
    then have "Inr (Some m) \<in> set outcomes" by auto
    then show ?thesis using that fulfilled_values_member by blast
  qed
  with g o show ?thesis by blast
qed

text \<open>
  The example archive has three block states. The model of \<open>bad\<close> names a parent of
  which there is no file, so its resolution is rejected with the \<^verbatim>\<open>TypeError\<close> of
  \<^verbatim>\<open>getModel\<close>; the list still has the models of the other two.
\<close>

theorem getBlockList_isolates_failures_witness:
  "\<exists>models this2.
     getBlockList 4 example_parser example_instance None = Some (Inr models, this2) \<and>
     length models = 2 \<and>
     map (\<lambda>m. get_prop m ''blockName'') models = [Some (JStr ''minecraft:block/a''), Some (JStr ''plain'')] \<and>
     outcome (getModelFromBlockState 4 example_parser example_instance
                (JObj [(''variants'', JObj [([], JObj [(''model'', JStr ''block/broken'')])]),
                       (''identifier'', JStr ''minecraft:bad'')]))
       = Some (Inl TypeError)"
proof -
  let ?good = "JObj [(''variants'',
                      JObj [(''facing=north'', JObj [(''model'', JStr ''block/b'')]),
                            ([], JObj [(''model'', JStr ''minecraft:block/a'')])]),
                     (''identifier'', JStr ''minecraft:good'')]"
  let ?bad = "JObj [(''variants'', JObj [([], JObj [(''model'', JStr ''block/broken'')])]),
                    (''identifier'', JStr ''minecraft:bad'')]"
  let ?plain = "JObj [(''variants'', JObj [(''x'', JArr [JObj [(''model'', JStr ''plain'')]])]),
                      (''identifier'', JStr ''minecraft:plain'')]"
  obtain r this1 where gs: "getBlockStates example_parser example_instance None = (r, this1)"
    by (cases "getBlockStates example_parser (example_instance :: json Minecraft) None")
  have "fst (getBlockStates example_parser example_instance None) = Inr [?good, ?bad, ?plain]"
    by code_simp
  then have states: "getBlockStates example_parser example_instance None
                       = (Inr [?good, ?bad, ?plain], this1)"
    using gs by simp
  have d: "same_docs example_parser example_instance this1"
    using same_docs_getBlockStates [of example_parser example_instance None] gs by simp
  have same: "outcome (getModelFromBlockState 4 example_parser this1 st)
                = outcome (getModelFromBlockState 4 example_parser example_instance st)" for st
    using getModelFromBlockState_docs [OF d, of 4 st] by simp
  have og: "outcome (getModelFromBlockState 4 example_parser example_instance ?good) =
      Some (Inr (Some (JObj
            [(''display'', JObj [(''gui'', JObj [(''scale'', JNum 1)])]),
             (''shade'', JBool True),
             (''blockName'', JStr ''minecraft:block/a''),
             (''textures'', JObj [(''all'', JStr ''a.png''), (''side'', JStr ''s.png'')]),
             (''elements'', JArr [JNum 1]),
             (''ambientocclusion'', JBool False),
             (''parents'', JArr [JStr ''minecraft:block/c'', JStr ''block/b''])])))"
    by code_simp
  have ob: "outcome (getModelFromBlockState 4 example_parser example_instance ?bad)
              = Some (Inl TypeError)"
    by code_simp
  have op: "outcome (getModelFromBlockState 4 example_parser example_instance ?plain) =
      Some (Inr (Some (JObj
            [(''display'', JObj [(''gui'', JObj [(''scale'', JNum 2)])]),
             (''blockName'', JStr ''plain''),
             (''textures'', JObj [(''all'', JStr ''p.png'')]),
             (''parents'', JArr [JStr ''minecraft:block/block''])])))"
    by code_simp
  have settle: "\<forall>st \<in> set [?good, ?bad, ?plain]. getModelFromBlockState 4 example_parser this1 st \<noteq> None"
  proof -
    have "outcome (getModelFromBlockState 4 example_parser this1 st) \<noteq> None"
      if "st \<in> set [?good, ?bad, ?plain]" for st
      using that og ob op by (auto simp only: same set_simps insert_iff empty_iff)
    then show ?thesis by (auto simp: outcome_def simp del: set_simps)
  qed
  from getBlockList_isolates_failures [OF states settle] obtain outcomes this2 where
    g: "getBlockList 4 example_parser example_instance None
          = Some (Inr (fulfilled_values outcomes), this2)"
    and o: "map Some outcomes
              = map (\<lambda>st. outcome (getModelFromBlockState 4 example_parser this1 st))
                  [?good, ?bad, ?plain]"
    by blast
  from o have "map Some outcomes =
      [outcome (getModelFromBlockState 4 example_parser example_instance ?good),
       outcome (getModelFromBlockState 4 example_parser example_instance ?bad),
       outcome (getModelFromBlockState 4 example_parser example_instance ?plain)]"
    by (simp only: list.map same)
  then have "map Some outcomes = map Some
      [Inr (Some (JObj
            [(''display'', JObj [(''gui'', JObj [(''scale'', JNum 1)])]),
             (''shade'', JBool True),
             (''blockName'', JStr ''minecraft:block/a''),
             (''textures'', JObj [(''all'', JStr ''a.png''), (''side'', JStr ''s.png'')]),
             (''elements'', JArr [JNum 1]),
             (''ambientocclusion'', JBool False),
             (''parents'', JArr [JStr ''minecraft:block/c'', JStr ''block/b''])])),
       Inl TypeError,
       Inr (Some (JObj
            [(''display'', JObj [(''gui'', JObj [(''scale'', JNum 2)])]),
             (''blockName'', JStr ''plain''),
             (''textures'', JObj [(''all'', JStr ''p.png'')]),
             (''parents'', JArr [JStr ''minecraft:block/block''])]))]"
    by (simp only: og ob op list.map)
  then have "outcomes =
      [Inr (Some (JObj
            [(''display'', JObj [(''gui'', JObj [(''scale'', JNum 1)])]),
             (''shade'', JBool True),
             (''blockName'', JStr ''minecraft:block/a''),
             (''textures'', JObj [(''all'', JStr ''a.png''), (''side'', JStr ''s.png'')]),
             (''elements'', JArr [JNum 1]),
             (''ambientocclusion'', JBool False),
             (''parents'', JArr [JStr ''minecraft:block/c'', JStr ''block/b''])])),
       Inl TypeError,
       Inr (Some (JObj
            [(''display'', JObj [(''gui'', JObj [(''scale'', JNum 2)])]),
             (''blockName'', JStr ''plain''),
             (''textures'', JObj [(''all'', JStr ''p.png'')]),
             (''parents'', JArr [JStr ''minecraft:block/block''])]))]"
    by (simp only: inj_map_eq_map [OF inj_Some])
  then have l: "length (fulfilled_values outcomes) = 2"
    and n: "map (\<lambda>m. get_prop m ''blockName'') (fulfilled_values outcomes)
              = [Some (JStr ''minecraft:block/a''), Some (JStr ''plain'')]"
    by simp_all
  show ?thesis
    by (rule exI [where x = "fulfilled_values outcomes"], rule exI [where x = this2])
       (intro conjI g l n ob)
qed

section \<open>Claims about the cache\<close>

text \<open>
  C10, as the code has it. Let the file of a path exist and parse to a document that is
  not truthy, with nothing truthy cached for the path. Then the first call of
  \<^verbatim>\<open>getParsedJson\<close> returns \<^verbatim>\<open>undefined\<close> and stores the document under the path;
  every later call returns \<^verbatim>\<open>undefined\<close> again; the cache holds the falsy document
  for the path from the first call on, which both tests of the function read as no
  entry; and each call reads and parses the file anew: if the archives by then yield
  another content for the path, the call returns what that content parses to.
\<close>

theorem getParsedJson_falsy_document:
  assumes miss: "\<not> truthy_opt (cache this path)"
    and found: "getFile this path = Inr (Some data)"
    and parsed: "P data = Inr doc"
    and falsy: "\<not> truthy doc"
  shows "getParsedJson P this path = (Inr None, this\<lparr> cache := (cache this)(path \<mapsto> doc) \<rparr>) \<and>
         fst (getParsedJson P (((\<lambda>s. snd (getParsedJson P s path)) ^^ n) this) path) = Inr None \<and>
         cache (((\<lambda>s. snd (getParsedJson P s path)) ^^ Suc n) this) path = Some doc \<and>
         (getFile (((\<lambda>s. snd (getParsedJson P s path)) ^^ n) this\<lparr> jar := j', modid_jars := m' \<rparr>) path
              = Inr (Some data') \<and> P data' = Inr doc'
            \<longrightarrow> fst (getParsedJson P (((\<lambda>s. snd (getParsedJson P s path)) ^^ n) this
                                           \<lparr> jar := j', modid_jars := m' \<rparr>) path)
                  = (if truthy doc' then Inr (Some doc') else Inr None))"
proof -
  let ?call = "\<lambda>s. snd (getParsedJson P s path)"
  let ?after = "this\<lparr> cache := (cache this)(path \<mapsto> doc) \<rparr>"
  have first: "getParsedJson P this path = (Inr None, ?after)"
    using getParsedJson_miss [of this path data P doc] miss found parsed falsy by simp
  have again: "getParsedJson P ?after path = (Inr None, ?after)"
    using getParsedJson_miss [of ?after path data P doc] found parsed falsy
    by (simp add: getFile_cache_update)
  have iter: "(?call ^^ Suc k) this = ?after" for k
  proof (induction k)
    case 0 show ?case by (simp only: funpow.simps comp_apply id_apply first snd_conv)
  next
    case (Suc k)
    have "(?call ^^ Suc (Suc k)) this = ?call ((?call ^^ Suc k) this)"
      by (simp only: funpow.simps comp_apply)
    then show ?case by (simp only: Suc again snd_conv)
  qed
  have state: "\<not> truthy_opt (cache ((?call ^^ k) this) path) \<and>
               getFile ((?call ^^ k) this) path = Inr (Some data)" for k
  proof (cases k)
    case 0 then show ?thesis using miss found by simp
  next
    case (Suc k') then show ?thesis using iter [of k'] found falsy
      by (simp add: getFile_cache_update)
  qed
  have each: "fst (getParsedJson P ((?call ^^ n) this) path) = Inr None"
    using getParsedJson_miss [of "(?call ^^ n) this" path data P doc] state [of n] parsed falsy
    by simp
  have slot: "cache ((?call ^^ Suc n) this) path = Some doc"
    using iter [of n] by simp
  have fresh: "fst (getParsedJson P ((?call ^^ n) this\<lparr> jar := j', modid_jars := m' \<rparr>) path)
                  = (if truthy doc' then Inr (Some doc') else Inr None)"
    if "getFile ((?call ^^ n) this\<lparr> jar := j', modid_jars := m' \<rparr>) path = Inr (Some data')"
      and "P data' = Inr doc'"
    using getParsedJson_miss [of "(?call ^^ n) this\<lparr> jar := j', modid_jars := m' \<rparr>" path data' P doc']
      that state [of n] by simp
  show ?thesis using first each slot fresh by blast
qed

text \<open>
  The file \<open>nothing.json\<close> of the example archive parses to \<^verbatim>\<open>null\<close>. The third
  call still returns \<^verbatim>\<open>undefined\<close>; once the archive holds the text of a model under
  that path, the third call returns that model.
\<close>

theorem getParsedJson_falsy_document_witness:
  "getParsedJson example_parser example_instance ''assets/minecraft/models/block/nothing.json''
     = (Inr None, example_instance\<lparr> cache := (cache example_instance)
             (''assets/minecraft/models/block/nothing.json'' \<mapsto> JNull) \<rparr>) \<and>
   fst (getParsedJson example_parser
          (((\<lambda>s. snd (getParsedJson example_parser s ''assets/minecraft/models/block/nothing.json''))
              ^^ 2) example_instance)
          ''assets/minecraft/models/block/nothing.json'') = Inr None \<and>
   fst (getParsedJson example_parser
          (((\<lambda>s. snd (getParsedJson example_parser s ''assets/minecraft/models/block/nothing.json''))
              ^^ 2) example_instance
             \<lparr> jar := jar_of_files [(''assets/minecraft/models/block/nothing.json'', ''P'')],
               modid_jars := [] \<rparr>)
          ''assets/minecraft/models/block/nothing.json'')
     = Inr (Some (JObj [(''textures'', JObj [(''all'', JStr ''p.png'')])]))"
proof -
  let ?path = "''assets/minecraft/models/block/nothing.json''"
  let ?call = "\<lambda>s. snd (getParsedJson example_parser s ?path)"
  let ?j = "jar_of_files [(?path, ''P'')]"
  have miss: "\<not> truthy_opt (cache (example_instance :: json Minecraft) ?path)"
    by (simp add: example_instance_def Minecraft_open_def)
  have found: "getFile (example_instance :: json Minecraft) ?path = Inr (Some ''null'')"
    by code_simp
  have parsed: "example_parser ''null'' = Inr JNull"
    by code_simp
  have falsy: "\<not> truthy JNull" by simp
  have found': "getFile ((?call ^^ 2) example_instance\<lparr> jar := ?j, modid_jars := [] \<rparr>) ?path
                  = Inr (Some ''P'')"
    by (simp add: getFile_def jar_of_files_def)
  have parsed': "example_parser ''P'' = Inr (JObj [(''textures'', JObj [(''all'', JStr ''p.png'')])])"
    by code_simp
  from getParsedJson_falsy_document
         [where P = example_parser and this = example_instance and path = ?path
            and data = "''null''" and doc = JNull
            and n = 2 and j' = ?j and m' = "[]" and data' = "''P''"
            and doc' = "JObj [(''textures'', JObj [(''all'', JStr ''p.png'')])]",
          OF miss found parsed falsy]
       found' parsed'
  show ?thesis by simp
qed

text \<open>
  C10 as stated fails in one point: the call does write to the cache. After the first
  call the cache holds \<^verbatim>\<open>null\<close> under the path.
\<close>

theorem getParsedJson_stores_falsy_document:
  "cache (snd (getParsedJson example_parser example_instance
                 ''assets/minecraft/models/block/nothing.json''))
         ''assets/minecraft/models/block/nothing.json'' = Some JNull \<and>
   cache (snd (getParsedJson example_parser example_instance
                 ''assets/minecraft/models/block/nothing.json''))
         ''assets/minecraft/models/block/nothing.json'' \<noteq> None"
  by code_simp

end
